theory Spec2Isabelle
  imports Main "HOL-Library.Char_ord" "HOL-Library.List_Lexorder"
begin

section \<open>The wrap resolver (pkg/resolver/wrap/resolver.go)\<close>

text \<open>
  The resolver loads a pipeline by name, and for every pipeline task that uses one of the
  requested workspaces it embeds the task's specification with an \<open>import-workspace\<close> step
  in front (except for the task at index 0) and an \<open>export-workspace\<close> step at the end.

  Go strings are byte strings, modelled as \<^typ>\<open>string\<close>. Go maps from strings to strings are
  partial functions; reading an absent key gives the empty string. The parameter map of a
  request can be the nil map: it reads as the empty map, and an assignment to one of its
  entries is the failure \<open>NilMapAssignment\<close> (a run-time panic). A nil pointer is \<open>None\<close>,
  and dereferencing it is the failure \<open>NilPointerDereference\<close> (a run-time panic as well).
\<close>

subsection \<open>Constants\<close>

definition PipelineRefParam :: string where "PipelineRefParam = ''pipelineref''"
definition WorkspacesParam :: string where "WorkspacesParam = ''workspaces''"
definition TargetParam :: string where "TargetParam = ''target''"
definition WrapperParam :: string where "WrapperParam = ''wrapper''"

definition DefaultBaseImage :: string where
  "DefaultBaseImage = ''ghcr.io/openshift-pipelines/tekton-wrap-pipeline/base:latest''"

definition placeholder :: string where "placeholder = ''{{workspace}}''"

definition nl :: char where "nl = CHR 0x0A"
definition dq :: char where "dq = CHR 0x22"

lemmas param_names = PipelineRefParam_def WorkspacesParam_def TargetParam_def WrapperParam_def

subsection \<open>The resource model (the fields of tekton's v1beta1 types the resolver touches)\<close>

record Step =
  step_Name :: string
  step_Image :: string
  step_WorkingDir :: string
  step_Script :: string

record WorkspaceDeclaration =
  wd_Name :: string
  wd_MountPath :: string

record WorkspacePipelineTaskBinding =
  wb_Name :: string
  wb_Workspace :: string

record TaskSpec =
  ts_Params :: "string list"
  ts_Workspaces :: "WorkspaceDeclaration list"
  ts_Steps :: "Step list"

text \<open>\<open>EmbeddedTask\<close> embeds a \<open>TaskSpec\<close> next to its own metadata.\<close>

record EmbeddedTask =
  et_Labels :: "(string \<times> string) list"
  et_TaskSpec :: TaskSpec

text \<open>\<open>TaskRef\<close> and \<open>TaskSpec\<close> are pointers in \<open>PipelineTask\<close>: either can be nil.\<close>

record PipelineTask =
  pt_Name :: string
  pt_TaskRef :: "string option"
  pt_TaskSpec :: "EmbeddedTask option"
  pt_Params :: "(string \<times> string) list"
  pt_Workspaces :: "WorkspacePipelineTaskBinding list"

record Pipeline =
  p_Kind :: string
  p_APIVersion :: string
  p_Name :: string
  p_Workspaces :: "string list"
  p_Tasks :: "PipelineTask list"

text \<open>
  \<open>Content\<close> is the pipeline that \<open>yaml.Marshal\<close> serialises; the document is kept in its
  structured form here.
\<close>

record ResolvedWrapperResource =
  Content :: Pipeline
  PipelineRef :: string

definition Annotations :: "ResolvedWrapperResource \<Rightarrow> (string \<rightharpoonup> string)" where
  "Annotations r = [''PipelineRef'' \<mapsto> PipelineRef r]"

text \<open>The cluster, scoped to the request's namespace: what the two \<open>Get\<close> calls answer.\<close>

record cluster =
  Pipelines :: "string \<rightharpoonup> Pipeline"
  Tasks :: "string \<rightharpoonup> TaskSpec"

text \<open>
  What the resolver takes from its libraries: the mount path of a workspace declaration
  (\<open>WorkspaceDeclaration.GetMountPath\<close>), and the order in which the Go runtime ranges over
  the keys of a string set (unspecified by the language; \<open>sets.String.List\<close> ranges over
  the set and sorts what it collected).
\<close>

record externals =
  GetMountPath :: "WorkspaceDeclaration \<Rightarrow> string"
  rangeKeys :: "string set \<Rightarrow> string list"

datatype failure =
    PipelineGetFailed string
  | TaskSpecFetchFailed string
  | NilPointerDereference
  | NilMapAssignment

subsection \<open>Library functions: map index, strings.Split, strings.ReplaceAll, sets.String\<close>

definition mapIndex :: "(string \<rightharpoonup> string) \<Rightarrow> string \<Rightarrow> string" where
  "mapIndex m k = (case m k of None \<Rightarrow> [] | Some v \<Rightarrow> v)"

text \<open>
  A map variable that can hold nil (\<open>None\<close>). Reading a nil map finds no key; assigning to
  an entry of a nil map panics.
\<close>

type_synonym gomap = "(string \<rightharpoonup> string) option"

definition entries :: "gomap \<Rightarrow> (string \<rightharpoonup> string)" where
  "entries m = (case m of None \<Rightarrow> Map.empty | Some f \<Rightarrow> f)"

definition mapAssign :: "gomap \<Rightarrow> string \<Rightarrow> string \<Rightarrow> failure + gomap" where
  "mapAssign m k v = (case m of None \<Rightarrow> Inl NilMapAssignment | Some f \<Rightarrow> Inr (Some (f(k \<mapsto> v))))"

text \<open>\<open>strings.Split(s, ",")\<close>: the pieces between commas; one empty piece for the empty string.\<close>

fun Split_comma :: "string \<Rightarrow> string list" where
  "Split_comma [] = [[]]"
| "Split_comma (c # cs) =
     (if c = CHR '','' then [] # Split_comma cs
      else (case Split_comma cs of [] \<Rightarrow> [[c]] | x # xs \<Rightarrow> (c # x) # xs))"

text \<open>
  \<open>strings.ReplaceAll(s, old, new)\<close>: the non-overlapping occurrences of \<open>old\<close>, from the
  left, are replaced by \<open>new\<close>. With an empty \<open>old\<close> (never the case in the resolver) Go
  inserts \<open>new\<close> before every character and at the end.
\<close>

function ReplaceAll :: "string \<Rightarrow> string \<Rightarrow> string \<Rightarrow> string" where
  "ReplaceAll [] old new = (if old = [] then new else [])"
| "ReplaceAll (c # cs) old new =
     (if old = [] then new @ c # ReplaceAll cs old new
      else if take (length old) (c # cs) = old
        then new @ ReplaceAll (drop (length old) (c # cs)) old new
      else c # ReplaceAll cs old new)"
  by pat_completeness auto
termination
  by (relation "measure (\<lambda>(s, old, new). length s)") auto

definition NewString :: "string list \<Rightarrow> string set" where
  "NewString items = set items"

definition Has :: "string set \<Rightarrow> string \<Rightarrow> bool" where
  "Has s item = (item \<in> s)"

definition HasAny :: "string set \<Rightarrow> string list \<Rightarrow> bool" where
  "HasAny s items = list_ex (Has s) items"

definition List :: "externals \<Rightarrow> string set \<Rightarrow> string list" where
  "List ext s = sort (rangeKeys ext s)"

subsection \<open>populateParamsWithDefaults and ValidateParams\<close>

text \<open>
  The body of \<open>populateParamsWithDefaults\<close> up to its return statement: the local
  \<open>missingParams\<close> and the parameter map with the default wrapper filled in. The
  assignment \<open>params[WrapperParam] = wrapperVal\<close> panics when \<open>params\<close> is the nil map.
  The configuration is only read.
\<close>

definition collectMissing ::
  "(string \<rightharpoonup> string) \<Rightarrow> gomap \<Rightarrow> failure + string list \<times> gomap" where
  "collectMissing conf params =
     (case (case entries params WrapperParam of
              Some _ \<Rightarrow> Inr ([], params)
            | None \<Rightarrow>
                (case conf ''default-wrapper'' of
                   None \<Rightarrow> Inr ([WrapperParam], params)
                 | Some wrapperVal \<Rightarrow>
                     (case mapAssign params WrapperParam wrapperVal of
                        Inl panic \<Rightarrow> Inl panic
                      | Inr params' \<Rightarrow> Inr ([], params')))) of
        Inl panic \<Rightarrow> Inl panic
      | Inr (missing0, params1) \<Rightarrow>
          (let missing1 = (if entries params1 PipelineRefParam = None
                           then missing0 @ [PipelineRefParam] else missing0);
               missing2 = (if entries params1 TargetParam = None
                           then missing1 @ [TargetParam] else missing1);
               missing3 = (if entries params1 WorkspacesParam = None
                           then missing2 @ [WorkspacesParam] else missing2)
           in Inr (missing3, params1)))"

text \<open>The return statement is \<open>return params, nil\<close>: \<open>missingParams\<close> is not read again.\<close>

definition populateParamsWithDefaults ::
  "(string \<rightharpoonup> string) \<Rightarrow> gomap \<Rightarrow> failure + gomap" where
  "populateParamsWithDefaults conf params =
     (case collectMissing conf params of
        Inl panic \<Rightarrow> Inl panic
      | Inr (missingParams, params') \<Rightarrow> Inr params')"

text \<open>
  \<open>ValidateParams\<close> returns the error of \<open>populateParamsWithDefaults\<close>; \<open>None\<close> is nil, and
  \<open>Some NilMapAssignment\<close> is the panic passing through.
\<close>

definition ValidateParams ::
  "(string \<rightharpoonup> string) \<Rightarrow> gomap \<Rightarrow> failure option" where
  "ValidateParams conf params =
     (case populateParamsWithDefaults conf params of Inl err \<Rightarrow> Some err | Inr _ \<Rightarrow> None)"

subsection \<open>resolveTaskSpecs\<close>

text \<open>
  One iteration: an embedded specification is taken through the \<open>TaskSpec\<close> pointer, a
  referenced one is fetched from the cluster under the name of the pipeline task.
\<close>

definition getTaskSpec :: "cluster \<Rightarrow> string \<Rightarrow> failure + TaskSpec" where
  "getTaskSpec cl name =
     (case Tasks cl name of None \<Rightarrow> Inl (TaskSpecFetchFailed name) | Some spec \<Rightarrow> Inr spec)"

definition resolveTaskSpec :: "cluster \<Rightarrow> PipelineTask \<Rightarrow> failure + TaskSpec" where
  "resolveTaskSpec cl t =
     (case pt_TaskRef t of
        None \<Rightarrow>
          (case pt_TaskSpec t of
             None \<Rightarrow> Inl NilPointerDereference
           | Some et \<Rightarrow> Inr (et_TaskSpec et))
      | Some _ \<Rightarrow> getTaskSpec cl (pt_Name t))"

fun resolveTaskSpecs_loop ::
  "cluster \<Rightarrow> PipelineTask list \<Rightarrow> (string \<rightharpoonup> TaskSpec) \<Rightarrow> failure + (string \<rightharpoonup> TaskSpec)" where
  "resolveTaskSpecs_loop cl [] taskSpecs = Inr taskSpecs"
| "resolveTaskSpecs_loop cl (t # ts) taskSpecs =
     (case resolveTaskSpec cl t of
        Inl err \<Rightarrow> Inl err
      | Inr taskSpec \<Rightarrow> resolveTaskSpecs_loop cl ts (taskSpecs(pt_Name t \<mapsto> taskSpec)))"

definition resolveTaskSpecs ::
  "cluster \<Rightarrow> PipelineTask list \<Rightarrow> failure + (string \<rightharpoonup> TaskSpec)" where
  "resolveTaskSpecs cl tasks = resolveTaskSpecs_loop cl tasks Map.empty"

subsection \<open>Resolve\<close>

text \<open>The target image of every requested workspace (the loop over \<open>workspaces.List()\<close>).\<close>

definition wtargetimages :: "externals \<Rightarrow> string set \<Rightarrow> string \<Rightarrow> (string \<rightharpoonup> string)" where
  "wtargetimages ext workspaces target =
     foldl (\<lambda>m w. m(w \<mapsto> ReplaceAll target placeholder w)) Map.empty (List ext workspaces)"

text \<open>The inner loop \<open>for _, d := range s.Workspaces\<close>: the last declaration of that name.\<close>

definition findDeclaration :: "WorkspaceDeclaration list \<Rightarrow> string \<Rightarrow> WorkspaceDeclaration" where
  "findDeclaration ds name =
     foldl (\<lambda>w d. if wd_Name d = name then d else w) \<lparr>wd_Name = [], wd_MountPath = []\<rparr> ds"

definition shebang :: string where
  "shebang = ''#!/busybox/sh -e'' @ [nl]"

definition importLines :: "string \<Rightarrow> string \<Rightarrow> string" where
  "importLines baseimage path =
     ''echo '' @ [dq] @ ''Extract workspace content from '' @ baseimage @ '' in '' @ path @ [dq, nl]
     @ ''crane export '' @ baseimage @ '' | tar -x -C '' @ path @ [nl]"

definition exportLines :: "string \<Rightarrow> string \<Rightarrow> string \<Rightarrow> string" where
  "exportLines path baseimage targetimage =
     ''echo '' @ [dq] @ ''Export workspace content from '' @ path @ '' to '' @ targetimage @ [dq, nl]
     @ ''(cd '' @ path @ '' && tar -f - -c . | crane append -b '' @ baseimage
     @ '' -t '' @ targetimage @ '' -f -)'' @ [nl]"

text \<open>
  The two script loops carry the script built so far and the variable \<open>baseimage\<close>, which
  is declared once in \<open>Resolve\<close> and assigned inside the loops.
\<close>

definition importBody ::
  "externals \<Rightarrow> string set \<Rightarrow> (string \<rightharpoonup> string) \<Rightarrow> TaskSpec \<Rightarrow>
     string \<times> string \<Rightarrow> WorkspacePipelineTaskBinding \<Rightarrow> string \<times> string" where
  "importBody ext workspaces wt s st pw =
     (case st of (script, baseimage) \<Rightarrow>
        if Has workspaces (wb_Workspace pw) then
          (let baseimage' = mapIndex wt (wb_Workspace pw);
               w = findDeclaration (ts_Workspaces s) (wb_Name pw)
           in (script @ importLines baseimage' (GetMountPath ext w), baseimage'))
        else (script, baseimage))"

definition importScript ::
  "externals \<Rightarrow> string set \<Rightarrow> (string \<rightharpoonup> string) \<Rightarrow> TaskSpec \<Rightarrow>
     WorkspacePipelineTaskBinding list \<Rightarrow> string \<Rightarrow> string \<times> string" where
  "importScript ext workspaces wt s uses baseimage =
     foldl (importBody ext workspaces wt s) (shebang, baseimage) uses"

definition exportBody ::
  "externals \<Rightarrow> string set \<Rightarrow> (string \<rightharpoonup> string) \<Rightarrow> TaskSpec \<Rightarrow> nat \<Rightarrow>
     string \<times> string \<Rightarrow> WorkspacePipelineTaskBinding \<Rightarrow> string \<times> string" where
  "exportBody ext workspaces wt s i st pw =
     (case st of (script, baseimage) \<Rightarrow>
        if Has workspaces (wb_Workspace pw) then
          (let baseimage' = (if i \<noteq> 0 then mapIndex wt (wb_Workspace pw) else baseimage);
               w = findDeclaration (ts_Workspaces s) (wb_Name pw)
           in (script @ exportLines (GetMountPath ext w) baseimage' (mapIndex wt (wb_Workspace pw)),
               baseimage'))
        else (script, baseimage))"

definition exportScript ::
  "externals \<Rightarrow> string set \<Rightarrow> (string \<rightharpoonup> string) \<Rightarrow> TaskSpec \<Rightarrow> nat \<Rightarrow>
     WorkspacePipelineTaskBinding list \<Rightarrow> string \<Rightarrow> string \<times> string" where
  "exportScript ext workspaces wt s i uses baseimage =
     foldl (exportBody ext workspaces wt s i) (shebang, baseimage) uses"

definition importStep :: "string \<Rightarrow> Step" where
  "importStep script =
     \<lparr>step_Name = ''import-workspace'', step_Image = ''gcr.io/go-containerregistry/crane:debug'',
      step_WorkingDir = ''/'', step_Script = script\<rparr>"

definition exportStep :: "string \<Rightarrow> Step" where
  "exportStep script =
     \<lparr>step_Name = ''export-workspace'', step_Image = ''gcr.io/go-containerregistry/crane:debug'',
      step_WorkingDir = ''/'', step_Script = script\<rparr>"

text \<open>
  One iteration of the loop over \<open>newPipeline.Spec.Tasks\<close>, on the task \<open>t\<close> at index \<open>i\<close>.
  The state is \<open>baseimage\<close> and the objects the pointers of \<open>taskSpecs\<close> point to: \<open>s\<close> is a
  pointer, so the assignments to \<open>s.Steps\<close> are seen by a later task of the same name.
  The last assignment writes through \<open>Tasks[i].TaskSpec\<close>, a pointer that can be nil.
\<close>

definition wrapTask ::
  "externals \<Rightarrow> string set \<Rightarrow> (string \<rightharpoonup> string) \<Rightarrow> nat \<Rightarrow> PipelineTask \<Rightarrow>
     string \<times> (string \<rightharpoonup> TaskSpec) \<Rightarrow> failure + PipelineTask \<times> string \<times> (string \<rightharpoonup> TaskSpec)" where
  "wrapTask ext workspaces wt i t st =
     (case st of (baseimage, taskSpecs) \<Rightarrow>
        if \<not> HasAny workspaces (map wb_Workspace (pt_Workspaces t)) then Inr (t, baseimage, taskSpecs)
        else
          (case taskSpecs (pt_Name t) of
             None \<Rightarrow> Inl NilPointerDereference
           | Some s \<Rightarrow>
               (let (s1, baseimage1) =
                      (if i \<noteq> 0 then
                         (case importScript ext workspaces wt s (pt_Workspaces t) baseimage of
                            (script, b) \<Rightarrow> (s\<lparr>ts_Steps := importStep script # ts_Steps s\<rparr>, b))
                       else (s, baseimage));
                    (s2, baseimage2) =
                      (case exportScript ext workspaces wt s1 i (pt_Workspaces t) baseimage1 of
                         (script, b) \<Rightarrow> (s1\<lparr>ts_Steps := ts_Steps s1 @ [exportStep script]\<rparr>, b))
                in (case pt_TaskSpec t of
                      None \<Rightarrow> Inl NilPointerDereference
                    | Some et \<Rightarrow>
                        Inr (t\<lparr>pt_TaskRef := None, pt_TaskSpec := Some (et\<lparr>et_TaskSpec := s2\<rparr>)\<rparr>,
                             baseimage2, taskSpecs(pt_Name t \<mapsto> s2))))))"

fun wrapTasks ::
  "externals \<Rightarrow> string set \<Rightarrow> (string \<rightharpoonup> string) \<Rightarrow> nat \<Rightarrow> PipelineTask list \<Rightarrow>
     string \<times> (string \<rightharpoonup> TaskSpec) \<Rightarrow> failure + PipelineTask list" where
  "wrapTasks ext workspaces wt i [] st = Inr []"
| "wrapTasks ext workspaces wt i (t # ts) st =
     (case wrapTask ext workspaces wt i t st of
        Inl err \<Rightarrow> Inl err
      | Inr (t', st') \<Rightarrow>
          (case wrapTasks ext workspaces wt (Suc i) ts st' of
             Inl err \<Rightarrow> Inl err
           | Inr ts' \<Rightarrow> Inr (t' # ts')))"

definition Resolve ::
  "externals \<Rightarrow> (string \<rightharpoonup> string) \<Rightarrow> cluster \<Rightarrow> gomap \<Rightarrow>
     failure + ResolvedWrapperResource" where
  "Resolve ext conf cl origParams =
     (case populateParamsWithDefaults conf origParams of
        Inl err \<Rightarrow> Inl err
      | Inr params \<Rightarrow>
          (case Pipelines cl (mapIndex (entries params) PipelineRefParam) of
             None \<Rightarrow> Inl (PipelineGetFailed (mapIndex (entries params) PipelineRefParam))
           | Some pipeline \<Rightarrow>
               (let workspaces = NewString (Split_comma (mapIndex (entries params) WorkspacesParam)) in
                case resolveTaskSpecs cl (p_Tasks pipeline) of
                  Inl err \<Rightarrow> Inl err
                | Inr taskSpecs \<Rightarrow>
                    (let wt = wtargetimages ext workspaces (mapIndex (entries params) TargetParam) in
                     case wrapTasks ext workspaces wt 0 (p_Tasks pipeline) (DefaultBaseImage, taskSpecs) of
                       Inl err \<Rightarrow> Inl err
                     | Inr tasks' \<Rightarrow>
                         Inr \<lparr>Content = pipeline\<lparr>p_Kind := ''Pipeline'',
                                                 p_APIVersion := ''tekton.dev/v1beta1'',
                                                 p_Tasks := tasks'\<rparr>,
                              PipelineRef = mapIndex (entries params) PipelineRefParam\<rparr>))))"

text \<open>
  The set \<open>workspaces\<close> and the map \<open>wtargetimages\<close> of \<open>Resolve\<close>, as functions of the
  request's parameters.
\<close>

definition requested :: "gomap \<Rightarrow> string set" where
  "requested params = NewString (Split_comma (mapIndex (entries params) WorkspacesParam))"

definition targets :: "externals \<Rightarrow> gomap \<Rightarrow> (string \<rightharpoonup> string)" where
  "targets ext params = wtargetimages ext (requested params) (mapIndex (entries params) TargetParam)"

subsection \<open>A sample cluster\<close>

text \<open>
  The pipeline of the repository's example: \<open>grab-source\<close> and \<open>build\<close>, two tasks with
  inline specifications that share the workspace \<open>sources\<close> (scripts and image names
  shortened). \<open>notify\<close> and \<open>publish\<close> are two tasks that refer to a stored Task instead;
  \<open>publish\<close> uses the workspace, \<open>notify\<close> does not. The mount path of a declaration is its
  \<open>MountPath\<close> when it has one, and its name under \<open>/workspace/\<close> otherwise.
\<close>

definition ex_ext :: externals where
  "ex_ext = \<lparr>GetMountPath = (\<lambda>w. if wd_MountPath w \<noteq> [] then wd_MountPath w
                                   else ''/workspace/'' @ wd_Name w),
             rangeKeys = sorted_list_of_set\<rparr>"

definition grab_source :: PipelineTask where
  "grab_source =
     \<lparr>pt_Name = ''grab-source'', pt_TaskRef = None,
      pt_TaskSpec = Some \<lparr>et_Labels = [],
        et_TaskSpec = \<lparr>ts_Params = [''url''],
          ts_Workspaces = [\<lparr>wd_Name = ''output'', wd_MountPath = []\<rparr>],
          ts_Steps = [\<lparr>step_Name = ''clone'', step_Image = ''git-init:v0.21.0'',
                       step_WorkingDir = [], step_Script = ''/ko-app/git-init -url=$(params.url)''\<rparr>]\<rparr>\<rparr>,
      pt_Params = [(''url'', ''$(params.git-url)'')],
      pt_Workspaces = [\<lparr>wb_Name = ''output'', wb_Workspace = ''sources''\<rparr>]\<rparr>"

definition build :: PipelineTask where
  "build =
     \<lparr>pt_Name = ''build'', pt_TaskRef = None,
      pt_TaskSpec = Some \<lparr>et_Labels = [],
        et_TaskSpec = \<lparr>ts_Params = [],
          ts_Workspaces = [\<lparr>wd_Name = ''sources'', wd_MountPath = []\<rparr>],
          ts_Steps = [\<lparr>step_Name = ''build'', step_Image = ''golang:latest'',
                       step_WorkingDir = ''$(workspaces.sources.path)'',
                       step_Script = ''go build -v ./...''\<rparr>]\<rparr>\<rparr>,
      pt_Params = [],
      pt_Workspaces = [\<lparr>wb_Name = ''sources'', wb_Workspace = ''sources''\<rparr>]\<rparr>"

definition notify :: PipelineTask where
  "notify =
     \<lparr>pt_Name = ''notify'', pt_TaskRef = Some ''notify'', pt_TaskSpec = None,
      pt_Params = [], pt_Workspaces = []\<rparr>"

definition publish :: PipelineTask where
  "publish =
     \<lparr>pt_Name = ''publish'', pt_TaskRef = Some ''publish'', pt_TaskSpec = None,
      pt_Params = [],
      pt_Workspaces = [\<lparr>wb_Name = ''sources'', wb_Workspace = ''sources''\<rparr>]\<rparr>"

text \<open>
  \<open>publish\<close> with its \<open>TaskSpec\<close> pointer allocated (an embedded task that holds labels and
  an empty specification) next to its reference.
\<close>

definition publish_embedded :: PipelineTask where
  "publish_embedded =
     publish\<lparr>pt_TaskSpec := Some \<lparr>et_Labels = [(''app'', ''demo'')],
       et_TaskSpec = \<lparr>ts_Params = [], ts_Workspaces = [], ts_Steps = []\<rparr>\<rparr>\<rparr>"

definition simple_pipeline :: "PipelineTask list \<Rightarrow> Pipeline" where
  "simple_pipeline tasks =
     \<lparr>p_Kind = [], p_APIVersion = [], p_Name = ''simple-pipeline'',
      p_Workspaces = [''sources''], p_Tasks = tasks\<rparr>"

definition stored_task :: TaskSpec where
  "stored_task =
     \<lparr>ts_Params = [], ts_Workspaces = [\<lparr>wd_Name = ''sources'', wd_MountPath = ''/src''\<rparr>],
      ts_Steps = [\<lparr>step_Name = ''run'', step_Image = ''busybox'', step_WorkingDir = [],
                   step_Script = ''true''\<rparr>]\<rparr>"

definition ex_cluster :: "PipelineTask list \<Rightarrow> cluster" where
  "ex_cluster tasks =
     \<lparr>Pipelines = [''simple-pipeline'' \<mapsto> simple_pipeline tasks],
      Tasks = [''notify'' \<mapsto> stored_task, ''publish'' \<mapsto> stored_task]\<rparr>"

definition ex_entries :: "string \<rightharpoonup> string" where
  "ex_entries = [''pipelineref'' \<mapsto> ''simple-pipeline'', ''workspaces'' \<mapsto> ''sources'',
                 ''target'' \<mapsto> ''registry/run-{{workspace}}:latest'']"

definition ex_params :: gomap where
  "ex_params = Some ex_entries"

text \<open>A runtime that ranges over the keys in the opposite order, and a request for two workspaces.\<close>

definition ex_ext_rev :: externals where
  "ex_ext_rev = ex_ext\<lparr>rangeKeys := (\<lambda>s. rev (sorted_list_of_set s))\<rparr>"

definition ex_params2 :: gomap where
  "ex_params2 = Some (ex_entries(''workspaces'' \<mapsto> ''sources,cache''))"

section \<open>Properties\<close>

subsection \<open>Parameters\<close>

lemma collectMissing_other:
  "collectMissing conf p = Inr (ms, p') \<Longrightarrow> k \<noteq> WrapperParam \<Longrightarrow> entries p' k = entries p k"
  by (auto simp: collectMissing_def mapAssign_def entries_def Let_def split: option.splits)

lemma collectMissing_panic:
  "collectMissing conf p = Inl err \<longleftrightarrow>
     err = NilMapAssignment \<and> p = None \<and> conf ''default-wrapper'' \<noteq> None"
  by (auto simp: collectMissing_def mapAssign_def entries_def Let_def split: option.splits)

text \<open>
  \<open>populateParamsWithDefaults\<close> panics exactly on the nil map with a default wrapper
  configured; otherwise it returns a map that reads as the request's map on every key but
  \<open>wrapper\<close>.
\<close>

lemma populate_panic:
  "p = None \<Longrightarrow> conf ''default-wrapper'' \<noteq> None \<Longrightarrow>
   populateParamsWithDefaults conf p = Inl NilMapAssignment"
  by (auto simp: populateParamsWithDefaults_def collectMissing_def mapAssign_def entries_def)

lemma populate_other:
  assumes "p \<noteq> None \<or> conf ''default-wrapper'' = None"
  shows "\<exists>p'. populateParamsWithDefaults conf p = Inr p' \<and>
              (\<forall>k. k \<noteq> WrapperParam \<longrightarrow> entries p' k = entries p k)"
proof (cases "collectMissing conf p")
  case (Inl err)
  with assms show ?thesis by (auto simp: collectMissing_panic)
next
  case (Inr res)
  then show ?thesis
    by (cases res) (auto simp: populateParamsWithDefaults_def dest: collectMissing_other)
qed

lemma ValidateParams_nil:
  "p \<noteq> None \<or> conf ''default-wrapper'' = None \<Longrightarrow> ValidateParams conf p = None"
  using populate_other [of p conf] by (auto simp: ValidateParams_def)

lemma ValidateParams_panic:
  "conf ''default-wrapper'' \<noteq> None \<Longrightarrow> ValidateParams conf None = Some NilMapAssignment"
  by (simp add: ValidateParams_def populate_panic)

lemma mapIndex_cong: "m' k = m k \<Longrightarrow> mapIndex m' k = mapIndex m k"
  by (simp add: mapIndex_def)

text \<open>Resolve in terms of the request's own parameters.\<close>

lemma Resolve_unfold:
  "Resolve ext conf cl p =
     (if p = None \<and> conf ''default-wrapper'' \<noteq> None then Inl NilMapAssignment
      else
     (case Pipelines cl (mapIndex (entries p) PipelineRefParam) of
        None \<Rightarrow> Inl (PipelineGetFailed (mapIndex (entries p) PipelineRefParam))
      | Some pipeline \<Rightarrow>
          (case resolveTaskSpecs cl (p_Tasks pipeline) of
             Inl err \<Rightarrow> Inl err
           | Inr taskSpecs \<Rightarrow>
               (case wrapTasks ext (NewString (Split_comma (mapIndex (entries p) WorkspacesParam)))
                       (wtargetimages ext (NewString (Split_comma (mapIndex (entries p) WorkspacesParam)))
                          (mapIndex (entries p) TargetParam))
                       0 (p_Tasks pipeline) (DefaultBaseImage, taskSpecs) of
                  Inl err \<Rightarrow> Inl err
                | Inr tasks' \<Rightarrow>
                    Inr \<lparr>Content = pipeline\<lparr>p_Kind := ''Pipeline'',
                                            p_APIVersion := ''tekton.dev/v1beta1'',
                                            p_Tasks := tasks'\<rparr>,
                         PipelineRef = mapIndex (entries p) PipelineRefParam\<rparr>))))"
proof (cases "p = None \<and> conf ''default-wrapper'' \<noteq> None")
  case True
  then show ?thesis by (simp add: Resolve_def populate_panic)
next
  case False
  then have "p \<noteq> None \<or> conf ''default-wrapper'' = None" by auto
  from populate_other [of p conf, OF this] obtain p'
    where pop: "populateParamsWithDefaults conf p = Inr p'"
      and same: "\<And>k. k \<noteq> WrapperParam \<Longrightarrow> entries p' k = entries p k"
    by blast
  have eqs: "mapIndex (entries p') PipelineRefParam = mapIndex (entries p) PipelineRefParam"
       "mapIndex (entries p') WorkspacesParam = mapIndex (entries p) WorkspacesParam"
       "mapIndex (entries p') TargetParam = mapIndex (entries p) TargetParam"
    by (rule mapIndex_cong, rule same, simp add: param_names)+
  show ?thesis
    unfolding Resolve_def pop Let_def if_not_P [OF False]
    by (simp add: eqs cong: option.case_cong sum.case_cong)
qed

text \<open>The script loops.\<close>

lemma importScript_fst:
  "fst (foldl (importBody ext ws wt s) (script, b) uses) =
     script @ concat (map (\<lambda>pw. importLines (mapIndex wt (wb_Workspace pw))
                                   (GetMountPath ext (findDeclaration (ts_Workspaces s) (wb_Name pw))))
                          (filter (\<lambda>pw. Has ws (wb_Workspace pw)) uses))"
  by (induction uses arbitrary: script b) (simp_all add: importBody_def Let_def)

lemma importScript_base_indep:
  "fst (importScript ext ws wt s uses b) = fst (importScript ext ws wt s uses b')"
  by (simp add: importScript_def importScript_fst)

lemma exportScript_fst_later:
  "i \<noteq> 0 \<Longrightarrow>
   fst (foldl (exportBody ext ws wt s i) (script, b) uses) =
     script @ concat (map (\<lambda>pw. exportLines
                                   (GetMountPath ext (findDeclaration (ts_Workspaces s) (wb_Name pw)))
                                   (mapIndex wt (wb_Workspace pw)) (mapIndex wt (wb_Workspace pw)))
                          (filter (\<lambda>pw. Has ws (wb_Workspace pw)) uses))"
  by (induction uses arbitrary: script b) (simp_all add: exportBody_def Let_def)

lemma exportScript_first:
  "foldl (exportBody ext ws wt s 0) (script, b) uses =
     (script @ concat (map (\<lambda>pw. exportLines
                                   (GetMountPath ext (findDeclaration (ts_Workspaces s) (wb_Name pw)))
                                   b (mapIndex wt (wb_Workspace pw)))
                          (filter (\<lambda>pw. Has ws (wb_Workspace pw)) uses)), b)"
  by (induction uses arbitrary: script) (simp_all add: exportBody_def Let_def)

lemma exportScript_base_indep:
  "i \<noteq> 0 \<Longrightarrow> fst (exportScript ext ws wt s i uses b) = fst (exportScript ext ws wt s i uses b')"
  by (simp add: exportScript_def exportScript_fst_later)

lemma exportBody_steps_indep:
  "exportBody ext ws wt (s\<lparr>ts_Steps := steps\<rparr>) i = exportBody ext ws wt s i"
  by (rule ext)+ (simp add: exportBody_def split: prod.splits)

lemma exportScript_steps_indep:
  "exportScript ext ws wt (s\<lparr>ts_Steps := steps\<rparr>) i uses b = exportScript ext ws wt s i uses b"
  by (simp add: exportScript_def exportBody_steps_indep)

text \<open>One iteration.\<close>

lemma wrapTask_skip:
  "\<not> HasAny ws (map wb_Workspace (pt_Workspaces t)) \<Longrightarrow> wrapTask ext ws wt i t st = Inr (t, st)"
  by (cases st) (simp add: wrapTask_def)

lemma wrapTask_touched:
  assumes "HasAny ws (map wb_Workspace (pt_Workspaces t))"
      and "wrapTask ext ws wt i t (b, specs) = Inr (t', b', specs')"
  shows "\<exists>s et. specs (pt_Name t) = Some s \<and> pt_TaskSpec t = Some et"
  using assms
  by (auto simp: wrapTask_def Let_def split: option.splits prod.splits)

lemma wrapTask_eq:
  assumes "HasAny ws (map wb_Workspace (pt_Workspaces t))"
      and "specs (pt_Name t) = Some s" and "pt_TaskSpec t = Some et"
  shows "wrapTask ext ws wt i t (b, specs) =
     (let b1 = (if i \<noteq> 0 then snd (importScript ext ws wt s (pt_Workspaces t) b) else b);
          s2 = s\<lparr>ts_Steps :=
                 (if i \<noteq> 0 then [importStep (fst (importScript ext ws wt s (pt_Workspaces t) b))] else [])
                 @ ts_Steps s
                 @ [exportStep (fst (exportScript ext ws wt s i (pt_Workspaces t) b1))]\<rparr>
      in Inr (t\<lparr>pt_TaskRef := None, pt_TaskSpec := Some (et\<lparr>et_TaskSpec := s2\<rparr>)\<rparr>,
              snd (exportScript ext ws wt s i (pt_Workspaces t) b1),
              specs(pt_Name t \<mapsto> s2)))"
  using assms
  by (simp add: wrapTask_def Let_def case_prod_beta exportScript_steps_indep)

lemma wrapTask_first:
  assumes "HasAny ws (map wb_Workspace (pt_Workspaces t))"
      and "wrapTask ext ws wt 0 t (b, specs) = Inr (t', b', specs')"
  shows "\<exists>s et. specs (pt_Name t) = Some s \<and> pt_TaskSpec t = Some et \<and>
           t' = t\<lparr>pt_TaskRef := None,
                   pt_TaskSpec := Some (et\<lparr>et_TaskSpec :=
                     s\<lparr>ts_Steps := ts_Steps s
                          @ [exportStep (fst (exportScript ext ws wt s 0 (pt_Workspaces t) b))]\<rparr>\<rparr>)\<rparr>"
proof -
  from wrapTask_touched [OF assms] obtain s et
    where s: "specs (pt_Name t) = Some s" and et: "pt_TaskSpec t = Some et" by blast
  from assms(2) show ?thesis
    by (simp add: wrapTask_eq [where specs = specs and t = t, OF assms(1) s et] s et Let_def)
qed

lemma wrapTask_later:
  assumes "HasAny ws (map wb_Workspace (pt_Workspaces t))"
      and "i \<noteq> 0"
      and "wrapTask ext ws wt i t (b, specs) = Inr (t', b', specs')"
  shows "\<exists>s et. specs (pt_Name t) = Some s \<and> pt_TaskSpec t = Some et \<and>
           t' = t\<lparr>pt_TaskRef := None,
                   pt_TaskSpec := Some (et\<lparr>et_TaskSpec :=
                     s\<lparr>ts_Steps := importStep (fst (importScript ext ws wt s (pt_Workspaces t) b1))
                          # ts_Steps s
                          @ [exportStep (fst (exportScript ext ws wt s i (pt_Workspaces t) b2))]\<rparr>\<rparr>)\<rparr>"
proof -
  from wrapTask_touched [OF assms(1,3)] obtain s et
    where s: "specs (pt_Name t) = Some s" and et: "pt_TaskSpec t = Some et" by blast
  have i: "fst (importScript ext ws wt s (pt_Workspaces t) b)
         = fst (importScript ext ws wt s (pt_Workspaces t) b1)"
    by (rule importScript_base_indep)
  have e: "fst (exportScript ext ws wt s i (pt_Workspaces t)
                  (snd (importScript ext ws wt s (pt_Workspaces t) b)))
         = fst (exportScript ext ws wt s i (pt_Workspaces t) b2)"
    using assms(2) by (rule exportScript_base_indep)
  from assms(3) show ?thesis
    by (simp add: wrapTask_eq [where specs = specs and t = t, OF assms(1) s et] s et Let_def assms(2) i e)
qed

lemma wrapTask_frame:
  assumes "wrapTask ext ws wt i t (b, specs) = Inr (t', b', specs')"
  shows "pt_Name t' = pt_Name t \<and> pt_Params t' = pt_Params t \<and> pt_Workspaces t' = pt_Workspaces t"
    and "n \<noteq> pt_Name t \<Longrightarrow> specs' n = specs n"
  using assms
  by (auto simp: wrapTask_def Let_def split: option.splits prod.splits if_splits)

lemma wrapTask_failure:
  "wrapTask ext ws wt i t st = Inl err \<Longrightarrow> err = NilPointerDereference"
  by (cases st) (auto simp: wrapTask_def Let_def split: option.splits prod.splits if_splits)

subsection \<open>The loop over the tasks\<close>

lemma wrapTasks_Cons_Inr:
  assumes "wrapTasks ext ws wt i (t # ts) (b, specs) = Inr out"
  obtains t' b' specs' out' where "wrapTask ext ws wt i t (b, specs) = Inr (t', b', specs')"
    and "wrapTasks ext ws wt (Suc i) ts (b', specs') = Inr out'" and "out = t' # out'"
  using assms by (auto split: sum.splits)

lemma wrapTasks_names:
  "wrapTasks ext ws wt i ts (b, specs) = Inr out \<Longrightarrow>
     length out = length ts \<and> map pt_Name out = map pt_Name ts \<and>
     map pt_Params out = map pt_Params ts \<and> map pt_Workspaces out = map pt_Workspaces ts"
proof (induction ts arbitrary: i b specs out)
  case Nil
  then show ?case by simp
next
  case (Cons t ts)
  from Cons.prems obtain t' b' specs' out'
    where hd: "wrapTask ext ws wt i t (b, specs) = Inr (t', b', specs')"
      and tl: "wrapTasks ext ws wt (Suc i) ts (b', specs') = Inr out'"
      and out: "out = t' # out'"
    by (rule wrapTasks_Cons_Inr)
  from Cons.IH [OF tl] wrapTask_frame(1) [OF hd] out show ?case by simp
qed

lemma wrapTasks_skip:
  "wrapTasks ext ws wt i ts (b, specs) = Inr out \<Longrightarrow> k < length ts \<Longrightarrow>
   \<not> HasAny ws (map wb_Workspace (pt_Workspaces (ts ! k))) \<Longrightarrow> out ! k = ts ! k"
proof (induction ts arbitrary: i b specs out k)
  case Nil
  then show ?case by simp
next
  case (Cons t ts)
  from Cons.prems(1) obtain t' b' specs' out'
    where hd: "wrapTask ext ws wt i t (b, specs) = Inr (t', b', specs')"
      and tl: "wrapTasks ext ws wt (Suc i) ts (b', specs') = Inr out'"
      and out: "out = t' # out'"
    by (rule wrapTasks_Cons_Inr)
  show ?case
  proof (cases k)
    case 0
    with Cons.prems(3) have "wrapTask ext ws wt i t (b, specs) = Inr (t, b, specs)"
      by (simp add: wrapTask_skip)
    with hd out 0 show ?thesis by simp
  next
    case (Suc k')
    with Cons.prems Cons.IH [OF tl, of k'] out show ?thesis by simp
  qed
qed

lemma wrapTasks_touched:
  "wrapTasks ext ws wt i ts (b, specs) = Inr out \<Longrightarrow> k < length ts \<Longrightarrow>
   HasAny ws (map wb_Workspace (pt_Workspaces (ts ! k))) \<Longrightarrow>
   pt_TaskRef (out ! k) = None \<and> pt_TaskSpec (out ! k) \<noteq> None"
proof (induction ts arbitrary: i b specs out k)
  case Nil
  then show ?case by simp
next
  case (Cons t ts)
  from Cons.prems(1) obtain t' b' specs' out'
    where hd: "wrapTask ext ws wt i t (b, specs) = Inr (t', b', specs')"
      and tl: "wrapTasks ext ws wt (Suc i) ts (b', specs') = Inr out'"
      and out: "out = t' # out'"
    by (rule wrapTasks_Cons_Inr)
  show ?case
  proof (cases k)
    case 0
    with Cons.prems(3) have any: "HasAny ws (map wb_Workspace (pt_Workspaces t))" by simp
    from wrapTask_touched [OF any hd] obtain s et
      where s: "specs (pt_Name t) = Some s" and et: "pt_TaskSpec t = Some et" by blast
    from hd have "pt_TaskRef t' = None \<and> pt_TaskSpec t' \<noteq> None"
      by (auto simp add: wrapTask_eq [where specs = specs and t = t, OF any s et] Let_def)
    with out 0 show ?thesis by simp
  next
    case (Suc k')
    with Cons.prems Cons.IH [OF tl, of k'] out show ?thesis by simp
  qed
qed

lemma wrapTasks_later:
  "wrapTasks ext ws wt i ts (b, specs) = Inr out \<Longrightarrow> k < length ts \<Longrightarrow>
   HasAny ws (map wb_Workspace (pt_Workspaces (ts ! k))) \<Longrightarrow> i + k \<noteq> 0 \<Longrightarrow>
   distinct (map pt_Name ts) \<Longrightarrow>
   \<exists>s et. specs (pt_Name (ts ! k)) = Some s \<and> pt_TaskSpec (ts ! k) = Some et \<and>
     out ! k = (ts ! k)\<lparr>pt_TaskRef := None,
        pt_TaskSpec := Some (et\<lparr>et_TaskSpec :=
          s\<lparr>ts_Steps :=
               importStep (fst (importScript ext ws wt s (pt_Workspaces (ts ! k)) b1))
               # ts_Steps s
               @ [exportStep (fst (exportScript ext ws wt s (i + k) (pt_Workspaces (ts ! k)) b2))]\<rparr>\<rparr>)\<rparr>"
proof (induction ts arbitrary: i b specs out k)
  case Nil
  then show ?case by simp
next
  case (Cons t ts)
  from Cons.prems(1) obtain t' b' specs' out'
    where hd: "wrapTask ext ws wt i t (b, specs) = Inr (t', b', specs')"
      and tl: "wrapTasks ext ws wt (Suc i) ts (b', specs') = Inr out'"
      and out: "out = t' # out'"
    by (rule wrapTasks_Cons_Inr)
  show ?case
  proof (cases k)
    case 0
    with Cons.prems have any: "HasAny ws (map wb_Workspace (pt_Workspaces t))" and i: "i \<noteq> 0"
      by simp_all
    from wrapTask_later [OF any i hd, of b1 b2] out 0 show ?thesis by simp
  next
    case (Suc k')
    with Cons.prems have k': "k' < length ts"
      and any: "HasAny ws (map wb_Workspace (pt_Workspaces (ts ! k')))"
      and dist: "distinct (map pt_Name ts)"
      and fresh: "pt_Name t \<notin> pt_Name ` set ts"
      by simp_all
    from k' have "pt_Name (ts ! k') \<in> pt_Name ` set ts" by simp
    with fresh have other: "pt_Name (ts ! k') \<noteq> pt_Name t" by metis
    from Cons.IH [OF tl k' any _ dist] wrapTask_frame(2) [OF hd other] out Suc
    show ?thesis by simp
  qed
qed

lemma resolveTaskSpecs_loop_other:
  "resolveTaskSpecs_loop cl ts m = Inr specs \<Longrightarrow> n \<notin> pt_Name ` set ts \<Longrightarrow> specs n = m n"
  by (induction ts arbitrary: m) (auto split: sum.splits)

lemma resolveTaskSpecs_loop_nth:
  "resolveTaskSpecs_loop cl ts m = Inr specs \<Longrightarrow> k < length ts \<Longrightarrow> distinct (map pt_Name ts) \<Longrightarrow>
   \<exists>s. resolveTaskSpec cl (ts ! k) = Inr s \<and> specs (pt_Name (ts ! k)) = Some s"
proof (induction ts arbitrary: m k)
  case Nil
  then show ?case by simp
next
  case (Cons t ts)
  from Cons.prems(1) obtain s where s: "resolveTaskSpec cl t = Inr s"
    and tl: "resolveTaskSpecs_loop cl ts (m(pt_Name t \<mapsto> s)) = Inr specs"
    by (auto split: sum.splits)
  show ?case
  proof (cases k)
    case 0
    from Cons.prems(3) have "pt_Name t \<notin> pt_Name ` set ts" by simp
    from resolveTaskSpecs_loop_other [OF tl this] s 0 show ?thesis by simp
  next
    case (Suc k')
    with Cons.prems Cons.IH [OF tl, of k'] show ?thesis by simp
  qed
qed

lemma resolveTaskSpecs_nth:
  "resolveTaskSpecs cl ts = Inr specs \<Longrightarrow> k < length ts \<Longrightarrow> distinct (map pt_Name ts) \<Longrightarrow>
   \<exists>s. resolveTaskSpec cl (ts ! k) = Inr s \<and> specs (pt_Name (ts ! k)) = Some s"
  unfolding resolveTaskSpecs_def by (rule resolveTaskSpecs_loop_nth)

text \<open>What a successful Resolve went through.\<close>

lemma Resolve_Inr:
  assumes "Resolve ext conf cl p = Inr r"
  obtains pipeline specs out where
    "Pipelines cl (mapIndex (entries p) PipelineRefParam) = Some pipeline"
    "resolveTaskSpecs cl (p_Tasks pipeline) = Inr specs"
    "wrapTasks ext (NewString (Split_comma (mapIndex (entries p) WorkspacesParam)))
       (wtargetimages ext (NewString (Split_comma (mapIndex (entries p) WorkspacesParam))) (mapIndex (entries p) TargetParam))
       0 (p_Tasks pipeline) (DefaultBaseImage, specs) = Inr out"
    "r = \<lparr>Content = pipeline\<lparr>p_Kind := ''Pipeline'', p_APIVersion := ''tekton.dev/v1beta1'',
                             p_Tasks := out\<rparr>,
          PipelineRef = mapIndex (entries p) PipelineRefParam\<rparr>"
  using assms unfolding Resolve_unfold
  by (auto split: option.splits sum.splits if_splits)

lemma Resolve_Inr_tasks:
  assumes "Resolve ext conf cl params = Inr r"
      and "Pipelines cl (mapIndex (entries params) PipelineRefParam) = Some pipeline"
  obtains specs where "resolveTaskSpecs cl (p_Tasks pipeline) = Inr specs"
    and "wrapTasks ext (requested params) (targets ext params) 0 (p_Tasks pipeline)
           (DefaultBaseImage, specs) = Inr (p_Tasks (Content r))"
proof -
  from assms(1) obtain pipeline' specs out where
    "Pipelines cl (mapIndex (entries params) PipelineRefParam) = Some pipeline'"
    and s: "resolveTaskSpecs cl (p_Tasks pipeline') = Inr specs"
    and w: "wrapTasks ext (NewString (Split_comma (mapIndex (entries params) WorkspacesParam)))
       (wtargetimages ext (NewString (Split_comma (mapIndex (entries params) WorkspacesParam)))
          (mapIndex (entries params) TargetParam))
       0 (p_Tasks pipeline') (DefaultBaseImage, specs) = Inr out"
    and "r = \<lparr>Content = pipeline'\<lparr>p_Kind := ''Pipeline'', p_APIVersion := ''tekton.dev/v1beta1'',
                             p_Tasks := out\<rparr>,
          PipelineRef = mapIndex (entries params) PipelineRefParam\<rparr>"
    by (rule Resolve_Inr)
  with assms(2) have "pipeline' = pipeline" and "p_Tasks (Content r) = out" by simp_all
  with s w that show thesis by (simp add: requested_def targets_def)
qed

lemma Resolve_Inr_pipeline:
  assumes "Resolve ext conf cl params = Inr r"
  obtains pipeline where "Pipelines cl (mapIndex (entries params) PipelineRefParam) = Some pipeline"
  using assms by (rule Resolve_Inr)

subsection \<open>Target images, string functions, and the libraries\<close>

lemma foldl_upd_apply:
  "foldl (\<lambda>m w. m(w \<mapsto> f w)) m0 xs k = (if k \<in> set xs then Some (f k) else m0 k)"
  by (induction xs arbitrary: m0) auto

lemma wtargetimages_apply:
  "set (rangeKeys ext S) = S \<Longrightarrow>
   wtargetimages ext S target w = (if w \<in> S then Some (ReplaceAll target placeholder w) else None)"
  by (simp add: wtargetimages_def List_def foldl_upd_apply)


lemma ReplaceAll_skip:
  "old \<noteq> [] \<Longrightarrow> hd old \<notin> set seg \<Longrightarrow> ReplaceAll (seg @ xs) old new = seg @ ReplaceAll xs old new"
proof (induction seg)
  case Nil
  then show ?case by simp
next
  case (Cons c seg)
  from Cons.prems have "take (length old) (c # seg @ xs) \<noteq> old"
    by (cases old) auto
  with Cons show ?case by simp
qed

lemma ReplaceAll_hit:
  "old \<noteq> [] \<Longrightarrow> ReplaceAll (old @ xs) old new = new @ ReplaceAll xs old new"
  by (cases old) simp_all

lemma ReplaceAll_none:
  "old \<noteq> [] \<Longrightarrow> hd old \<notin> set rest \<Longrightarrow> ReplaceAll rest old new = rest"
  using ReplaceAll_skip [of old rest "[]" new] by simp

lemma ReplaceAll_segments:
  "old \<noteq> [] \<Longrightarrow> \<forall>seg \<in> set segs. hd old \<notin> set seg \<Longrightarrow> hd old \<notin> set rest \<Longrightarrow>
   ReplaceAll (concat (map (\<lambda>seg. seg @ old) segs) @ rest) old new
     = concat (map (\<lambda>seg. seg @ new) segs) @ rest"
  by (induction segs) (simp_all add: ReplaceAll_none ReplaceAll_skip ReplaceAll_hit)

lemma importBody_ext:
  "GetMountPath ext1 = GetMountPath ext2 \<Longrightarrow> importBody ext1 ws wt s = importBody ext2 ws wt s"
  by (rule ext)+ (simp add: importBody_def split: prod.splits)

lemma exportBody_ext:
  "GetMountPath ext1 = GetMountPath ext2 \<Longrightarrow> exportBody ext1 ws wt s i = exportBody ext2 ws wt s i"
  by (rule ext)+ (simp add: exportBody_def split: prod.splits)

lemma importScript_ext:
  "GetMountPath ext1 = GetMountPath ext2 \<Longrightarrow> importScript ext1 = importScript ext2"
  by (rule ext)+ (simp add: importScript_def importBody_ext [of ext1 ext2])

lemma exportScript_ext:
  "GetMountPath ext1 = GetMountPath ext2 \<Longrightarrow> exportScript ext1 = exportScript ext2"
  by (rule ext)+ (simp add: exportScript_def exportBody_ext [of ext1 ext2])

lemma wrapTask_ext:
  assumes "GetMountPath ext1 = GetMountPath ext2"
  shows "wrapTask ext1 ws wt i t st = wrapTask ext2 ws wt i t st"
  unfolding wrapTask_def importScript_ext [OF assms] exportScript_ext [OF assms] by (rule refl)

lemma wrapTasks_ext:
  "GetMountPath ext1 = GetMountPath ext2 \<Longrightarrow> wrapTasks ext1 ws wt i ts st = wrapTasks ext2 ws wt i ts st"
  by (induction ts arbitrary: i st)
     (simp_all add: wrapTask_ext [of ext1 ext2] cong: sum.case_cong prod.case_cong)

lemma wrapTasks_failure:
  "wrapTasks ext ws wt i ts st = Inl err \<Longrightarrow> err = NilPointerDereference"
  by (induction ts arbitrary: i st) (auto split: sum.splits dest: wrapTask_failure)

lemma wrapTasks_nil_TaskSpec:
  "wrapTasks ext ws wt i ts (b, specs) = Inr out \<Longrightarrow> t \<in> set ts \<Longrightarrow>
   HasAny ws (map wb_Workspace (pt_Workspaces t)) \<Longrightarrow> pt_TaskSpec t \<noteq> None"
proof (induction ts arbitrary: i b specs out)
  case Nil
  then show ?case by simp
next
  case (Cons a ts)
  from Cons.prems(1) obtain t' b' specs' out'
    where hd: "wrapTask ext ws wt i a (b, specs) = Inr (t', b', specs')"
      and tl: "wrapTasks ext ws wt (Suc i) ts (b', specs') = Inr out'"
    by (rule wrapTasks_Cons_Inr)
  show ?case
  proof (cases "t = a")
    case True
    with Cons.prems(3) wrapTask_touched [OF _ hd] show ?thesis by auto
  next
    case False
    with Cons.prems(2) have "t \<in> set ts" by simp
    from Cons.IH [OF tl this Cons.prems(3)] show ?thesis .
  qed
qed

lemma Resolve_nil_TaskSpec:
  assumes "p \<noteq> None \<or> conf ''default-wrapper'' = None"
      and "Pipelines cl (mapIndex (entries p) PipelineRefParam) = Some pipeline"
      and "resolveTaskSpecs cl (p_Tasks pipeline) = Inr specs"
      and "t \<in> set (p_Tasks pipeline)" and "pt_TaskSpec t = None"
      and "HasAny (NewString (Split_comma (mapIndex (entries p) WorkspacesParam)))
             (map wb_Workspace (pt_Workspaces t))"
  shows "Resolve ext conf cl p = Inl NilPointerDereference"
proof (cases "wrapTasks ext (NewString (Split_comma (mapIndex (entries p) WorkspacesParam)))
       (wtargetimages ext (NewString (Split_comma (mapIndex (entries p) WorkspacesParam))) (mapIndex (entries p) TargetParam))
       0 (p_Tasks pipeline) (DefaultBaseImage, specs)")
  case (Inl err)
  with wrapTasks_failure [OF Inl] assms(1,2,3) show ?thesis
    by (auto simp: Resolve_unfold)
next
  case (Inr out)
  from wrapTasks_nil_TaskSpec [OF Inr assms(4,6)] assms(5) show ?thesis by simp
qed


subsection \<open>The sample cluster, evaluated\<close>

lemmas ex_defs = ex_ext_def grab_source_def build_def notify_def publish_def simple_pipeline_def
  publish_embedded_def
  stored_task_def ex_cluster_def ex_params_def ex_entries_def entries_def

lemma ex_requested: "NewString (Split_comma (mapIndex (entries ex_params) WorkspacesParam)) = {''sources''}"
  by (simp add: ex_params_def ex_entries_def entries_def mapIndex_def NewString_def param_names)

lemma ex_enumerated: "set (rangeKeys ex_ext {''sources''}) = {''sources''}"
  by (simp add: ex_ext_def)

lemma ex_targets:
  "wtargetimages ex_ext {''sources''} (mapIndex (entries ex_params) TargetParam) ''sources''
     = Some ''registry/run-sources:latest''"
  by (simp add: wtargetimages_apply [OF ex_enumerated] ex_params_def ex_entries_def entries_def
      mapIndex_def param_names placeholder_def)

lemmas eval_defs = Resolve_unfold resolveTaskSpecs_def resolveTaskSpec_def getTaskSpec_def
  wrapTask_def HasAny_def Has_def importScript_def exportScript_def importBody_def exportBody_def
  findDeclaration_def importStep_def exportStep_def mapIndex_def Let_def

lemmas sample_eval = eval_defs ex_defs param_names NewString_def

text \<open>
  The scripts in closed form: the shebang line, then one block of two lines for every
  workspace use of the task whose workspace is requested, in the order of the uses.
\<close>

lemma targets_apply:
  "set (rangeKeys ext (requested params)) = requested params \<Longrightarrow> w \<in> requested params \<Longrightarrow>
   mapIndex (targets ext params) w = ReplaceAll (mapIndex (entries params) TargetParam) ''{{workspace}}'' w"
  by (simp add: targets_def wtargetimages_apply mapIndex_def placeholder_def)

lemma importScript_closed:
  "fst (importScript ext ws wt s uses b) =
     ''#!/busybox/sh -e'' @ [CHR 0x0A] @
     concat (map (\<lambda>pw. ''echo '' @ [CHR 0x22] @ ''Extract workspace content from ''
                        @ mapIndex wt (wb_Workspace pw) @ '' in ''
                        @ GetMountPath ext (findDeclaration (ts_Workspaces s) (wb_Name pw))
                        @ [CHR 0x22, CHR 0x0A] @ ''crane export '' @ mapIndex wt (wb_Workspace pw)
                        @ '' | tar -x -C ''
                        @ GetMountPath ext (findDeclaration (ts_Workspaces s) (wb_Name pw))
                        @ [CHR 0x0A])
                 (filter (\<lambda>pw. wb_Workspace pw \<in> ws) uses))"
  by (simp add: importScript_def importScript_fst importLines_def shebang_def nl_def dq_def Has_def)

lemma exportScript_closed_later:
  "i \<noteq> 0 \<Longrightarrow>
   fst (exportScript ext ws wt s i uses b) =
     ''#!/busybox/sh -e'' @ [CHR 0x0A] @
     concat (map (\<lambda>pw. ''echo '' @ [CHR 0x22] @ ''Export workspace content from ''
                        @ GetMountPath ext (findDeclaration (ts_Workspaces s) (wb_Name pw))
                        @ '' to '' @ mapIndex wt (wb_Workspace pw) @ [CHR 0x22, CHR 0x0A]
                        @ ''(cd '' @ GetMountPath ext (findDeclaration (ts_Workspaces s) (wb_Name pw))
                        @ '' && tar -f - -c . | crane append -b '' @ mapIndex wt (wb_Workspace pw)
                        @ '' -t '' @ mapIndex wt (wb_Workspace pw) @ '' -f -)'' @ [CHR 0x0A])
                 (filter (\<lambda>pw. wb_Workspace pw \<in> ws) uses))"
  by (simp add: exportScript_def exportScript_fst_later exportLines_def shebang_def nl_def dq_def Has_def)

lemma exportScript_closed_first:
  "fst (exportScript ext ws wt s 0 uses b) =
     ''#!/busybox/sh -e'' @ [CHR 0x0A] @
     concat (map (\<lambda>pw. ''echo '' @ [CHR 0x22] @ ''Export workspace content from ''
                        @ GetMountPath ext (findDeclaration (ts_Workspaces s) (wb_Name pw))
                        @ '' to '' @ mapIndex wt (wb_Workspace pw) @ [CHR 0x22, CHR 0x0A]
                        @ ''(cd '' @ GetMountPath ext (findDeclaration (ts_Workspaces s) (wb_Name pw))
                        @ '' && tar -f - -c . | crane append -b '' @ b
                        @ '' -t '' @ mapIndex wt (wb_Workspace pw) @ '' -f -)'' @ [CHR 0x0A])
                 (filter (\<lambda>pw. wb_Workspace pw \<in> ws) uses))"
  by (simp add: exportScript_def exportScript_first exportLines_def shebang_def nl_def dq_def Has_def)

lemma ex_target_sources:
  "mapIndex (targets ex_ext ex_params) ''sources'' = ''registry/run-sources:latest''"
proof -
  have req: "requested ex_params = {''sources''}"
    by (simp add: requested_def ex_requested)
  have keys: "set (rangeKeys ex_ext (requested ex_params)) = requested ex_params"
    by (simp add: req ex_ext_def)
  have "mapIndex (entries ex_params) TargetParam = ''registry/run-{{workspace}}:latest''"
    by (simp add: ex_params_def ex_entries_def entries_def mapIndex_def param_names)
  with targets_apply [OF keys, of "''sources''"] show ?thesis
    by (simp add: req)
qed

text \<open>
  \<open>taskSpecs\<close> is keyed by the name of the pipeline task, and the loop changes the
  specification it points to in place. Two tasks of one name (which a pipeline accepted by
  the cluster does not have) therefore share one specification: here the second task gets
  the first one's export step as well.
\<close>

lemma same_name_steps_share:
  "\<exists>r et. Resolve ex_ext Map.empty
            (ex_cluster [grab_source, build\<lparr>pt_Name := ''grab-source''\<rparr>]) ex_params = Inr r
      \<and> pt_TaskSpec (p_Tasks (Content r) ! 1) = Some et
      \<and> map step_Name (ts_Steps (et_TaskSpec et))
          = [''import-workspace'', ''build'', ''export-workspace'', ''export-workspace'']"
  by (simp add: sample_eval)

subsection \<open>Claim C1: validation of a request with nothing in it\<close>

text \<open>
  Claim C1 says that a request without \<open>pipelineref\<close>, \<open>target\<close>, \<open>workspaces\<close> and \<open>wrapper\<close>,
  with no \<open>default-wrapper\<close> configured, is answered by an error that lists the four names.
  On the empty request (an empty map, or the nil map) and the empty configuration the
  function does collect the four names in \<open>missingParams\<close>, and then \<open>ValidateParams\<close>
  returns nil: no error at all.
\<close>

theorem ValidateParams_all_missing_returns_nil:
  "collectMissing Map.empty (Some Map.empty)
     = Inr ([WrapperParam, PipelineRefParam, TargetParam, WorkspacesParam], Some Map.empty)
   \<and> ValidateParams Map.empty (Some Map.empty) = None
   \<and> collectMissing Map.empty None
     = Inr ([WrapperParam, PipelineRefParam, TargetParam, WorkspacesParam], None)
   \<and> ValidateParams Map.empty None = None"
  by (simp add: collectMissing_def ValidateParams_def populateParamsWithDefaults_def entries_def
      param_names)

subsection \<open>Claim C2: a referenced task that uses a requested workspace\<close>

text \<open>
  Claim C2 says that \<open>Resolve\<close> returns a document or an error on a pipeline with a task
  that has a \<open>TaskRef\<close>, no inline \<open>TaskSpec\<close>, and a requested workspace. In the sample
  cluster the task \<open>publish\<close> is such a task, its specification is stored in the cluster
  and is fetched, and \<open>Resolve\<close> then writes through the nil \<open>TaskSpec\<close> pointer:
  the outcome is the nil pointer dereference, neither a document nor an error value.
\<close>

theorem Resolve_reference_task_nil_dereference:
  "pt_TaskRef publish = Some ''publish'' \<and> pt_TaskSpec publish = None
   \<and> HasAny (requested ex_params) (map wb_Workspace (pt_Workspaces publish))
   \<and> resolveTaskSpec (ex_cluster [grab_source, publish]) publish = Inr stored_task
   \<and> Resolve ex_ext Map.empty (ex_cluster [grab_source, publish]) ex_params
       = Inl NilPointerDereference"
  by (simp add: sample_eval requested_def)

subsection \<open>Claim C3: which bindings are inline in the output\<close>

text \<open>
  Claim C3 says that no step of the output carries a reference, whether or not the step uses
  a requested workspace. The task \<open>notify\<close> has a reference and uses no workspace: the
  loop skips it, and the output pipeline holds it as it was, reference included.
\<close>

theorem reference_kept_counterexample:
  "Resolve ex_ext Map.empty (ex_cluster [notify]) ex_params
     = Inr \<lparr>Content = (simple_pipeline [notify])\<lparr>p_Kind := ''Pipeline'',
                                                   p_APIVersion := ''tekton.dev/v1beta1''\<rparr>,
            PipelineRef = ''simple-pipeline''\<rparr>
   \<and> pt_TaskRef notify = Some ''notify''"
  by (simp add: sample_eval)

text \<open>
  Claim C3, amended: when \<open>Resolve\<close> returns a document, every step of the output that uses
  at least one requested workspace has no reference and has an inline specification.
\<close>

theorem touched_steps_are_inline:
  assumes "Resolve ext conf cl params = Inr r"
      and "i < length (p_Tasks (Content r))"
      and "HasAny (requested params) (map wb_Workspace (pt_Workspaces (p_Tasks (Content r) ! i)))"
  shows "pt_TaskRef (p_Tasks (Content r) ! i) = None \<and> pt_TaskSpec (p_Tasks (Content r) ! i) \<noteq> None"
proof -
  from assms(1) obtain pipeline
    where p: "Pipelines cl (mapIndex (entries params) PipelineRefParam) = Some pipeline"
    by (rule Resolve_Inr_pipeline)
  from assms(1) p obtain specs
    where w: "wrapTasks ext (requested params) (targets ext params) 0 (p_Tasks pipeline)
                (DefaultBaseImage, specs) = Inr (p_Tasks (Content r))"
    by (rule Resolve_Inr_tasks)
  from wrapTasks_names [OF w]
  have len: "length (p_Tasks (Content r)) = length (p_Tasks pipeline)"
    and uses: "map pt_Workspaces (p_Tasks (Content r)) = map pt_Workspaces (p_Tasks pipeline)"
    by simp_all
  from assms(2) len have i: "i < length (p_Tasks pipeline)" by simp
  from uses assms(2) i
  have "pt_Workspaces (p_Tasks (Content r) ! i) = pt_Workspaces (p_Tasks pipeline ! i)"
    by (metis nth_map)
  with assms(3) have "HasAny (requested params) (map wb_Workspace (pt_Workspaces (p_Tasks pipeline ! i)))"
    by simp
  from wrapTasks_touched [OF w i this] show ?thesis .
qed

theorem touched_steps_are_inline_witness:
  "\<exists>r. Resolve ex_ext Map.empty (ex_cluster [grab_source, build]) ex_params = Inr r
      \<and> HasAny (requested ex_params) (map wb_Workspace (pt_Workspaces (p_Tasks (Content r) ! 1)))
      \<and> pt_TaskRef (p_Tasks (Content r) ! 1) = None
      \<and> pt_TaskSpec (p_Tasks (Content r) ! 1) \<noteq> None"
proof -
  have "\<exists>r. Resolve ex_ext Map.empty (ex_cluster [grab_source, build]) ex_params = Inr r
      \<and> 1 < length (p_Tasks (Content r))
      \<and> HasAny (requested ex_params) (map wb_Workspace (pt_Workspaces (p_Tasks (Content r) ! 1)))"
    by (simp add: sample_eval requested_def)
  then obtain r where r: "Resolve ex_ext Map.empty (ex_cluster [grab_source, build]) ex_params = Inr r"
    and i: "1 < length (p_Tasks (Content r))"
    and u: "HasAny (requested ex_params) (map wb_Workspace (pt_Workspaces (p_Tasks (Content r) ! 1)))"
    by blast
  from touched_steps_are_inline [OF r i u] r u show ?thesis by blast
qed

subsection \<open>Claim C4: one import step and one export step\<close>

text \<open>
  Claim C4: in a pipeline whose steps have distinct names, when \<open>Resolve\<close> returns a
  document, a step at an index \<open>i > 0\<close> that uses a requested workspace is in the output
  without its reference, and its inline specification is its own specification (inline, or
  fetched from the cluster) with the sub-step list changed to: exactly one
  \<open>import-workspace\<close> sub-step, the original sub-steps, exactly one \<open>export-workspace\<close>
  sub-step. The import script is the shebang line followed, for every workspace use of the
  step whose workspace is requested (there is at least one), by the two lines that extract
  the workspace's target image into the mount path of the use; the export script is the
  shebang line followed, for the same uses, by the two lines that append the mount path
  to the workspace's target image, on top of that same image. The image of a requested
  workspace is the target template with the placeholder replaced, when the runtime ranges
  over all the keys of the set. The names have to be distinct: see
  \<open>same_name_steps_share\<close>. A step with a reference and a nil \<open>TaskSpec\<close> reaches no
  document (Claim C2); the second half of the witness is a step with a reference and an
  allocated \<open>TaskSpec\<close>, whose original sub-steps are those of the fetched Task.
\<close>

theorem later_step_import_and_export:
  assumes "Resolve ext conf cl params = Inr r"
      and "Pipelines cl (mapIndex (entries params) PipelineRefParam) = Some pipeline"
      and "distinct (map pt_Name (p_Tasks pipeline))"
      and "0 < i" and "i < length (p_Tasks pipeline)"
      and "HasAny (requested params) (map wb_Workspace (pt_Workspaces (p_Tasks pipeline ! i)))"
  shows "\<exists>s et.
      resolveTaskSpec cl (p_Tasks pipeline ! i) = Inr s \<and>
      pt_TaskSpec (p_Tasks pipeline ! i) = Some et \<and>
      (let t = p_Tasks pipeline ! i;
           used = filter (\<lambda>pw. wb_Workspace pw \<in> requested params) (pt_Workspaces t);
           image = (\<lambda>pw. mapIndex (targets ext params) (wb_Workspace pw));
           path = (\<lambda>pw. GetMountPath ext (findDeclaration (ts_Workspaces s) (wb_Name pw)))
       in used \<noteq> [] \<and>
          p_Tasks (Content r) ! i =
            t\<lparr>pt_TaskRef := None,
              pt_TaskSpec := Some (et\<lparr>et_TaskSpec := s\<lparr>ts_Steps :=
                \<lparr>step_Name = ''import-workspace'',
                 step_Image = ''gcr.io/go-containerregistry/crane:debug'',
                 step_WorkingDir = ''/'',
                 step_Script = ''#!/busybox/sh -e'' @ [CHR 0x0A] @
                   concat (map (\<lambda>pw. ''echo '' @ [CHR 0x22] @ ''Extract workspace content from ''
                                  @ image pw @ '' in '' @ path pw @ [CHR 0x22, CHR 0x0A]
                                  @ ''crane export '' @ image pw @ '' | tar -x -C '' @ path pw
                                  @ [CHR 0x0A]) used)\<rparr>
                # ts_Steps s @
                [\<lparr>step_Name = ''export-workspace'',
                  step_Image = ''gcr.io/go-containerregistry/crane:debug'',
                  step_WorkingDir = ''/'',
                  step_Script = ''#!/busybox/sh -e'' @ [CHR 0x0A] @
                    concat (map (\<lambda>pw. ''echo '' @ [CHR 0x22] @ ''Export workspace content from ''
                                   @ path pw @ '' to '' @ image pw @ [CHR 0x22, CHR 0x0A]
                                   @ ''(cd '' @ path pw @ '' && tar -f - -c . | crane append -b ''
                                   @ image pw @ '' -t '' @ image pw @ '' -f -)'' @ [CHR 0x0A]) used)\<rparr>]\<rparr>\<rparr>)\<rparr>
          \<and> (set (rangeKeys ext (requested params)) = requested params \<longrightarrow>
               (\<forall>pw \<in> set used. image pw =
                  ReplaceAll (mapIndex (entries params) TargetParam) ''{{workspace}}'' (wb_Workspace pw))))"
proof -
  from assms(1,2) obtain specs
    where s: "resolveTaskSpecs cl (p_Tasks pipeline) = Inr specs"
      and w: "wrapTasks ext (requested params) (targets ext params) 0 (p_Tasks pipeline)
                (DefaultBaseImage, specs) = Inr (p_Tasks (Content r))"
    by (rule Resolve_Inr_tasks)
  from resolveTaskSpecs_nth [OF s assms(5,3)] obtain s0
    where own: "resolveTaskSpec cl (p_Tasks pipeline ! i) = Inr s0"
      and reg: "specs (pt_Name (p_Tasks pipeline ! i)) = Some s0"
    by blast
  from assms(4) have i: "0 + i \<noteq> 0" by simp
  from wrapTasks_later [OF w assms(5,6) i assms(3), of "[]" "[]"] reg obtain et
    where et: "pt_TaskSpec (p_Tasks pipeline ! i) = Some et"
      and out: "p_Tasks (Content r) ! i = (p_Tasks pipeline ! i)\<lparr>pt_TaskRef := None,
        pt_TaskSpec := Some (et\<lparr>et_TaskSpec :=
          s0\<lparr>ts_Steps :=
               importStep (fst (importScript ext (requested params) (targets ext params) s0
                                  (pt_Workspaces (p_Tasks pipeline ! i)) []))
               # ts_Steps s0
               @ [exportStep (fst (exportScript ext (requested params) (targets ext params) s0 (0 + i)
                                     (pt_Workspaces (p_Tasks pipeline ! i)) []))]\<rparr>\<rparr>)\<rparr>"
    by auto
  from assms(6)
  have used: "filter (\<lambda>pw. wb_Workspace pw \<in> requested params) (pt_Workspaces (p_Tasks pipeline ! i)) \<noteq> []"
    by (auto simp: HasAny_def Has_def list_ex_iff filter_empty_conv)
  have "\<forall>pw \<in> set (filter (\<lambda>pw. wb_Workspace pw \<in> requested params)
                          (pt_Workspaces (p_Tasks pipeline ! i))).
          mapIndex (targets ext params) (wb_Workspace pw)
            = ReplaceAll (mapIndex (entries params) TargetParam) ''{{workspace}}'' (wb_Workspace pw)"
    if "set (rangeKeys ext (requested params)) = requested params"
    using that by (simp add: targets_apply)
  with own et used show ?thesis
    unfolding out importScript_closed exportScript_closed_later [OF i] importStep_def exportStep_def
    by (simp add: Let_def)
qed

theorem later_step_import_and_export_witness:
  "(\<exists>r. Resolve ex_ext Map.empty (ex_cluster [grab_source, build]) ex_params = Inr r
      \<and> pt_TaskRef (p_Tasks (Content r) ! 1) = None
      \<and> map_option (ts_Steps \<circ> et_TaskSpec) (pt_TaskSpec (p_Tasks (Content r) ! 1)) = Some
          [\<lparr>step_Name = ''import-workspace'',
            step_Image = ''gcr.io/go-containerregistry/crane:debug'', step_WorkingDir = ''/'',
            step_Script = ''#!/busybox/sh -e'' @ [CHR 0x0A]
              @ ''echo '' @ [CHR 0x22]
              @ ''Extract workspace content from registry/run-sources:latest in /workspace/sources''
              @ [CHR 0x22, CHR 0x0A]
              @ ''crane export registry/run-sources:latest | tar -x -C /workspace/sources''
              @ [CHR 0x0A]\<rparr>,
           \<lparr>step_Name = ''build'', step_Image = ''golang:latest'',
            step_WorkingDir = ''$(workspaces.sources.path)'', step_Script = ''go build -v ./...''\<rparr>,
           \<lparr>step_Name = ''export-workspace'',
            step_Image = ''gcr.io/go-containerregistry/crane:debug'', step_WorkingDir = ''/'',
            step_Script = ''#!/busybox/sh -e'' @ [CHR 0x0A]
              @ ''echo '' @ [CHR 0x22]
              @ ''Export workspace content from /workspace/sources to registry/run-sources:latest''
              @ [CHR 0x22, CHR 0x0A]
              @ ''(cd /workspace/sources && tar -f - -c . | crane append -b registry/run-sources:latest -t registry/run-sources:latest -f -)''
              @ [CHR 0x0A]\<rparr>])
   \<and> (\<exists>r. Resolve ex_ext Map.empty (ex_cluster [grab_source, publish_embedded]) ex_params = Inr r
      \<and> pt_TaskRef (p_Tasks (Content r) ! 1) = None
      \<and> map_option (ts_Steps \<circ> et_TaskSpec) (pt_TaskSpec (p_Tasks (Content r) ! 1)) = Some
          [\<lparr>step_Name = ''import-workspace'',
            step_Image = ''gcr.io/go-containerregistry/crane:debug'', step_WorkingDir = ''/'',
            step_Script = ''#!/busybox/sh -e'' @ [CHR 0x0A]
              @ ''echo '' @ [CHR 0x22]
              @ ''Extract workspace content from registry/run-sources:latest in /src''
              @ [CHR 0x22, CHR 0x0A]
              @ ''crane export registry/run-sources:latest | tar -x -C /src''
              @ [CHR 0x0A]\<rparr>,
           \<lparr>step_Name = ''run'', step_Image = ''busybox'', step_WorkingDir = [],
            step_Script = ''true''\<rparr>,
           \<lparr>step_Name = ''export-workspace'',
            step_Image = ''gcr.io/go-containerregistry/crane:debug'', step_WorkingDir = ''/'',
            step_Script = ''#!/busybox/sh -e'' @ [CHR 0x0A]
              @ ''echo '' @ [CHR 0x22]
              @ ''Export workspace content from /src to registry/run-sources:latest''
              @ [CHR 0x22, CHR 0x0A]
              @ ''(cd /src && tar -f - -c . | crane append -b registry/run-sources:latest -t registry/run-sources:latest -f -)''
              @ [CHR 0x0A]\<rparr>])"
  (is "?inline \<and> ?fetched")
proof
  have req: "requested ex_params = {''sources''}"
    by (simp add: requested_def ex_requested)
  show ?inline
  proof -
    let ?cl = "ex_cluster [grab_source, build]"
    let ?p = "simple_pipeline [grab_source, build]"
    have "\<exists>r. Resolve ex_ext Map.empty ?cl ex_params = Inr r"
      by (simp add: sample_eval)
    then obtain r where r: "Resolve ex_ext Map.empty ?cl ex_params = Inr r" ..
    have p: "Pipelines ?cl (mapIndex (entries ex_params) PipelineRefParam) = Some ?p"
      by (simp add: sample_eval)
    have d: "distinct (map pt_Name (p_Tasks ?p))"
      by (simp add: simple_pipeline_def grab_source_def build_def)
    have i: "(0::nat) < 1" "1 < length (p_Tasks ?p)"
      by (simp_all add: simple_pipeline_def)
    have t: "p_Tasks ?p ! 1 = build"
      by (simp add: simple_pipeline_def)
    have u: "HasAny (requested ex_params) (map wb_Workspace (pt_Workspaces (p_Tasks ?p ! 1)))"
      unfolding t by (simp add: req build_def HasAny_def Has_def)
    have own: "resolveTaskSpec ?cl build = Inr (et_TaskSpec (the (pt_TaskSpec build)))"
      by (simp add: resolveTaskSpec_def build_def)
    have path: "GetMountPath ex_ext
                  (findDeclaration [\<lparr>wd_Name = ''sources'', wd_MountPath = []\<rparr>] ''sources'')
                = ''/workspace/sources''"
      by (simp add: ex_ext_def findDeclaration_def)
    from later_step_import_and_export [OF r p d i u] r show ?thesis
      unfolding t own Let_def req
      by (simp add: build_def path ex_target_sources)
  qed
  show ?fetched
  proof -
    let ?cl = "ex_cluster [grab_source, publish_embedded]"
    let ?p = "simple_pipeline [grab_source, publish_embedded]"
    have "\<exists>r. Resolve ex_ext Map.empty ?cl ex_params = Inr r"
      by (simp add: sample_eval publish_embedded_def)
    then obtain r where r: "Resolve ex_ext Map.empty ?cl ex_params = Inr r" ..
    have p: "Pipelines ?cl (mapIndex (entries ex_params) PipelineRefParam) = Some ?p"
      by (simp add: sample_eval)
    have d: "distinct (map pt_Name (p_Tasks ?p))"
      by (simp add: simple_pipeline_def grab_source_def publish_embedded_def publish_def)
    have i: "(0::nat) < 1" "1 < length (p_Tasks ?p)"
      by (simp_all add: simple_pipeline_def)
    have t: "p_Tasks ?p ! 1 = publish_embedded"
      by (simp add: simple_pipeline_def)
    have u: "HasAny (requested ex_params) (map wb_Workspace (pt_Workspaces (p_Tasks ?p ! 1)))"
      unfolding t by (simp add: req publish_embedded_def publish_def HasAny_def Has_def)
    have own: "resolveTaskSpec ?cl publish_embedded = Inr stored_task"
      by (simp add: resolveTaskSpec_def getTaskSpec_def publish_embedded_def publish_def
          ex_cluster_def)
    have path: "GetMountPath ex_ext
                  (findDeclaration [\<lparr>wd_Name = ''sources'', wd_MountPath = ''/src''\<rparr>] ''sources'')
                = ''/src''"
      by (simp add: ex_ext_def findDeclaration_def)
    from later_step_import_and_export [OF r p d i u] r show ?thesis
      unfolding t own Let_def req
      by (simp add: publish_embedded_def publish_def stored_task_def path ex_target_sources)
  qed
qed

subsection \<open>Claim C5: the step at index 0\<close>

text \<open>
  Claim C5: when \<open>Resolve\<close> returns a document, the step at index 0 is either unchanged (it
  uses no requested workspace) or it is in the output without its reference, with the
  sub-steps of the specification registered under its name followed by exactly one
  \<open>export-workspace\<close> sub-step: nothing is put in front. The export script is the shebang
  line followed, for every workspace use of the step whose workspace is requested, by the
  two lines that append the mount path of the use to the workspace's target image, on top
  of the default base image. The specification registered under its name is its own when no
  later step has the same name.
\<close>

theorem first_step_export_only:
  assumes "Resolve ext conf cl params = Inr r"
      and "Pipelines cl (mapIndex (entries params) PipelineRefParam) = Some pipeline"
      and "p_Tasks pipeline = t # rest"
  shows "if HasAny (requested params) (map wb_Workspace (pt_Workspaces t))
         then \<exists>specs s et. resolveTaskSpecs cl (p_Tasks pipeline) = Inr specs \<and>
                specs (pt_Name t) = Some s \<and> pt_TaskSpec t = Some et \<and>
                (pt_Name t \<notin> pt_Name ` set rest \<longrightarrow> resolveTaskSpec cl t = Inr s) \<and>
                (let used = filter (\<lambda>pw. wb_Workspace pw \<in> requested params) (pt_Workspaces t);
                     image = (\<lambda>pw. mapIndex (targets ext params) (wb_Workspace pw));
                     path = (\<lambda>pw. GetMountPath ext (findDeclaration (ts_Workspaces s) (wb_Name pw)))
                 in used \<noteq> [] \<and>
                    hd (p_Tasks (Content r)) =
                      t\<lparr>pt_TaskRef := None,
                        pt_TaskSpec := Some (et\<lparr>et_TaskSpec := s\<lparr>ts_Steps :=
                          ts_Steps s @
                          [\<lparr>step_Name = ''export-workspace'',
                            step_Image = ''gcr.io/go-containerregistry/crane:debug'',
                            step_WorkingDir = ''/'',
                            step_Script = ''#!/busybox/sh -e'' @ [CHR 0x0A] @
                              concat (map (\<lambda>pw. ''echo '' @ [CHR 0x22]
                                   @ ''Export workspace content from '' @ path pw @ '' to ''
                                   @ image pw @ [CHR 0x22, CHR 0x0A]
                                   @ ''(cd '' @ path pw @ '' && tar -f - -c . | crane append -b ''
                                   @ DefaultBaseImage @ '' -t '' @ image pw @ '' -f -)''
                                   @ [CHR 0x0A]) used)\<rparr>]\<rparr>\<rparr>)\<rparr>
                    \<and> (set (rangeKeys ext (requested params)) = requested params \<longrightarrow>
                         (\<forall>pw \<in> set used. image pw =
                            ReplaceAll (mapIndex (entries params) TargetParam) ''{{workspace}}''
                              (wb_Workspace pw))))
         else hd (p_Tasks (Content r)) = t"
proof -
  from assms(1,2) obtain specs
    where s: "resolveTaskSpecs cl (p_Tasks pipeline) = Inr specs"
      and w: "wrapTasks ext (requested params) (targets ext params) 0 (p_Tasks pipeline)
                (DefaultBaseImage, specs) = Inr (p_Tasks (Content r))"
    by (rule Resolve_Inr_tasks)
  from w assms(3)
  have "wrapTasks ext (requested params) (targets ext params) 0 (t # rest) (DefaultBaseImage, specs)
          = Inr (p_Tasks (Content r))"
    by simp
  then obtain t' b' specs' out'
    where hd: "wrapTask ext (requested params) (targets ext params) 0 t (DefaultBaseImage, specs)
                 = Inr (t', b', specs')"
      and out: "p_Tasks (Content r) = t' # out'"
    by (rule wrapTasks_Cons_Inr)
  show ?thesis
  proof (cases "HasAny (requested params) (map wb_Workspace (pt_Workspaces t))")
    case True
    from wrapTask_first [OF True hd] obtain s0 et
      where reg: "specs (pt_Name t) = Some s0" and et: "pt_TaskSpec t = Some et"
        and t': "t' = t\<lparr>pt_TaskRef := None,
                   pt_TaskSpec := Some (et\<lparr>et_TaskSpec :=
                     s0\<lparr>ts_Steps := ts_Steps s0
                          @ [exportStep (fst (exportScript ext (requested params) (targets ext params)
                                                s0 0 (pt_Workspaces t) DefaultBaseImage))]\<rparr>\<rparr>)\<rparr>"
      by blast
    have own: "pt_Name t \<notin> pt_Name ` set rest \<longrightarrow> resolveTaskSpec cl t = Inr s0"
    proof
      assume fresh: "pt_Name t \<notin> pt_Name ` set rest"
      from s assms(3) obtain s1 where s1: "resolveTaskSpec cl t = Inr s1"
        and tl: "resolveTaskSpecs_loop cl rest (Map.empty(pt_Name t \<mapsto> s1)) = Inr specs"
        by (auto simp: resolveTaskSpecs_def split: sum.splits)
      from resolveTaskSpecs_loop_other [OF tl fresh] reg s1
      show "resolveTaskSpec cl t = Inr s0" by simp
    qed
    from True
    have used: "filter (\<lambda>pw. wb_Workspace pw \<in> requested params) (pt_Workspaces t) \<noteq> []"
      by (auto simp: HasAny_def Has_def list_ex_iff filter_empty_conv)
    have img: "\<forall>pw \<in> set (filter (\<lambda>pw. wb_Workspace pw \<in> requested params) (pt_Workspaces t)).
          mapIndex (targets ext params) (wb_Workspace pw)
            = ReplaceAll (mapIndex (entries params) TargetParam) ''{{workspace}}'' (wb_Workspace pw)"
      if "set (rangeKeys ext (requested params)) = requested params"
      using that by (simp add: targets_apply)
    from True s reg et own used img out show ?thesis
      unfolding t' exportScript_closed_first exportStep_def
      by (simp add: Let_def)
  next
    case False
    with hd out show ?thesis by (simp add: wrapTask_skip)
  qed
qed

theorem first_step_export_only_witness:
  "(\<exists>r. Resolve ex_ext Map.empty (ex_cluster [grab_source, build]) ex_params = Inr r
      \<and> pt_TaskRef (hd (p_Tasks (Content r))) = None
      \<and> map_option (ts_Steps \<circ> et_TaskSpec) (pt_TaskSpec (hd (p_Tasks (Content r)))) = Some
          [\<lparr>step_Name = ''clone'', step_Image = ''git-init:v0.21.0'', step_WorkingDir = [],
            step_Script = ''/ko-app/git-init -url=$(params.url)''\<rparr>,
           \<lparr>step_Name = ''export-workspace'',
            step_Image = ''gcr.io/go-containerregistry/crane:debug'', step_WorkingDir = ''/'',
            step_Script = ''#!/busybox/sh -e'' @ [CHR 0x0A]
              @ ''echo '' @ [CHR 0x22]
              @ ''Export workspace content from /workspace/output to registry/run-sources:latest''
              @ [CHR 0x22, CHR 0x0A]
              @ ''(cd /workspace/output && tar -f - -c . | crane append -b ghcr.io/openshift-pipelines/tekton-wrap-pipeline/base:latest -t registry/run-sources:latest -f -)''
              @ [CHR 0x0A]\<rparr>])
   \<and> (\<exists>r. Resolve ex_ext Map.empty (ex_cluster [notify, build]) ex_params = Inr r
      \<and> hd (p_Tasks (Content r)) = notify)"
  (is "?touched \<and> ?skipped")
proof
  have req: "requested ex_params = {''sources''}"
    by (simp add: requested_def ex_requested)
  show ?touched
  proof -
    let ?cl = "ex_cluster [grab_source, build]"
    let ?p = "simple_pipeline [grab_source, build]"
    have "\<exists>r. Resolve ex_ext Map.empty ?cl ex_params = Inr r"
      by (simp add: sample_eval)
    then obtain r where r: "Resolve ex_ext Map.empty ?cl ex_params = Inr r" ..
    have p: "Pipelines ?cl (mapIndex (entries ex_params) PipelineRefParam) = Some ?p"
      by (simp add: sample_eval)
    have ts: "p_Tasks ?p = grab_source # [build]"
      by (simp add: simple_pipeline_def)
    have u: "HasAny (requested ex_params) (map wb_Workspace (pt_Workspaces grab_source))"
      by (simp add: req grab_source_def HasAny_def Has_def)
    have path: "\<And>ps ss. GetMountPath ex_ext
                  (findDeclaration [\<lparr>wd_Name = ''output'', wd_MountPath = []\<rparr>] ''output'')
                = ''/workspace/output''"
      by (simp add: ex_ext_def findDeclaration_def)
    have fresh: "pt_Name grab_source \<notin> pt_Name ` set [build]"
      by (simp add: grab_source_def build_def)
    have own: "resolveTaskSpec ?cl grab_source = Inr (et_TaskSpec (the (pt_TaskSpec grab_source)))"
      by (simp add: resolveTaskSpec_def grab_source_def)
    from first_step_export_only [OF r p ts] u fresh
    have "\<exists>et. pt_TaskSpec grab_source = Some et \<and>
            hd (p_Tasks (Content r)) =
              grab_source\<lparr>pt_TaskRef := None,
                pt_TaskSpec := Some (et\<lparr>et_TaskSpec := (et_TaskSpec (the (pt_TaskSpec grab_source)))
                  \<lparr>ts_Steps := ts_Steps (et_TaskSpec (the (pt_TaskSpec grab_source))) @
                     [\<lparr>step_Name = ''export-workspace'',
                       step_Image = ''gcr.io/go-containerregistry/crane:debug'',
                       step_WorkingDir = ''/'',
                       step_Script = ''#!/busybox/sh -e'' @ [CHR 0x0A]
                         @ ''echo '' @ [CHR 0x22]
                         @ ''Export workspace content from /workspace/output to registry/run-sources:latest''
                         @ [CHR 0x22, CHR 0x0A]
                         @ ''(cd /workspace/output && tar -f - -c . | crane append -b ghcr.io/openshift-pipelines/tekton-wrap-pipeline/base:latest -t registry/run-sources:latest -f -)''
                         @ [CHR 0x0A]\<rparr>]\<rparr>\<rparr>)\<rparr>"
      unfolding own Let_def req
      by (auto simp: grab_source_def path ex_target_sources DefaultBaseImage_def)
    with r show ?thesis
      by (auto simp: grab_source_def)
  qed
  show ?skipped
  proof -
    let ?cl = "ex_cluster [notify, build]"
    let ?p = "simple_pipeline [notify, build]"
    have "\<exists>r. Resolve ex_ext Map.empty ?cl ex_params = Inr r"
      by (simp add: sample_eval)
    then obtain r where r: "Resolve ex_ext Map.empty ?cl ex_params = Inr r" ..
    have p: "Pipelines ?cl (mapIndex (entries ex_params) PipelineRefParam) = Some ?p"
      by (simp add: sample_eval)
    have ts: "p_Tasks ?p = notify # [build]"
      by (simp add: simple_pipeline_def)
    have u: "\<not> HasAny (requested ex_params) (map wb_Workspace (pt_Workspaces notify))"
      by (simp add: notify_def HasAny_def)
    from first_step_export_only [OF r p ts] u r show ?thesis by simp
  qed
qed

subsection \<open>Claim C6: steps that use no requested workspace\<close>

text \<open>
  Claim C6: when \<open>Resolve\<close> returns a document, a step that uses none of the requested
  workspaces is in the output exactly as it is in the input pipeline: name, reference, inline
  specification with its sub-steps, parameters and workspace uses.
\<close>

theorem untouched_step_unchanged:
  assumes "Resolve ext conf cl params = Inr r"
      and "Pipelines cl (mapIndex (entries params) PipelineRefParam) = Some pipeline"
      and "i < length (p_Tasks pipeline)"
      and "\<not> HasAny (requested params) (map wb_Workspace (pt_Workspaces (p_Tasks pipeline ! i)))"
  shows "p_Tasks (Content r) ! i = p_Tasks pipeline ! i"
proof -
  from assms(1,2) obtain specs
    where w: "wrapTasks ext (requested params) (targets ext params) 0 (p_Tasks pipeline)
                (DefaultBaseImage, specs) = Inr (p_Tasks (Content r))"
    by (rule Resolve_Inr_tasks)
  from wrapTasks_skip [OF w assms(3,4)] show ?thesis .
qed

theorem untouched_step_unchanged_witness:
  "\<exists>r. Resolve ex_ext Map.empty (ex_cluster [grab_source, notify]) ex_params = Inr r
      \<and> \<not> HasAny (requested ex_params) (map wb_Workspace (pt_Workspaces notify))
      \<and> p_Tasks (Content r) ! 1 = notify"
proof -
  let ?cl = "ex_cluster [grab_source, notify]"
  have "\<exists>r. Resolve ex_ext Map.empty ?cl ex_params = Inr r"
    by (simp add: sample_eval)
  then obtain r where r: "Resolve ex_ext Map.empty ?cl ex_params = Inr r" ..
  have p: "Pipelines ?cl (mapIndex (entries ex_params) PipelineRefParam) = Some (simple_pipeline [grab_source, notify])"
    by (simp add: sample_eval)
  have i: "1 < length (p_Tasks (simple_pipeline [grab_source, notify]))"
    by (simp add: simple_pipeline_def)
  have n: "p_Tasks (simple_pipeline [grab_source, notify]) ! 1 = notify"
    by (simp add: simple_pipeline_def)
  have u: "\<not> HasAny (requested ex_params) (map wb_Workspace (pt_Workspaces notify))"
    by (simp add: sample_eval requested_def)
  from untouched_step_unchanged [OF r p i] u n r show ?thesis by auto
qed

subsection \<open>Claim C7: the steps of the output pipeline\<close>

text \<open>
  Claim C7: when \<open>Resolve\<close> returns a document, the output pipeline has as many steps as the
  input pipeline, with the same names in the same order (and the same parameters and
  workspace uses): what is injected is inside the steps' specifications.
\<close>

theorem steps_kept_in_order:
  assumes "Resolve ext conf cl params = Inr r"
      and "Pipelines cl (mapIndex (entries params) PipelineRefParam) = Some pipeline"
  shows "length (p_Tasks (Content r)) = length (p_Tasks pipeline) \<and>
         map pt_Name (p_Tasks (Content r)) = map pt_Name (p_Tasks pipeline) \<and>
         map pt_Params (p_Tasks (Content r)) = map pt_Params (p_Tasks pipeline) \<and>
         map pt_Workspaces (p_Tasks (Content r)) = map pt_Workspaces (p_Tasks pipeline)"
proof -
  from assms obtain specs
    where w: "wrapTasks ext (requested params) (targets ext params) 0 (p_Tasks pipeline)
                (DefaultBaseImage, specs) = Inr (p_Tasks (Content r))"
    by (rule Resolve_Inr_tasks)
  from wrapTasks_names [OF w] show ?thesis .
qed

theorem steps_kept_in_order_witness:
  "\<exists>r. Resolve ex_ext Map.empty (ex_cluster [grab_source, build]) ex_params = Inr r
      \<and> length (p_Tasks (Content r)) = 2
      \<and> map pt_Name (p_Tasks (Content r)) = [''grab-source'', ''build'']"
proof -
  let ?cl = "ex_cluster [grab_source, build]"
  have "\<exists>r. Resolve ex_ext Map.empty ?cl ex_params = Inr r"
    by (simp add: sample_eval)
  then obtain r where r: "Resolve ex_ext Map.empty ?cl ex_params = Inr r" ..
  have p: "Pipelines ?cl (mapIndex (entries ex_params) PipelineRefParam) = Some (simple_pipeline [grab_source, build])"
    by (simp add: sample_eval)
  from steps_kept_in_order [OF r p] r show ?thesis
    by (auto simp: simple_pipeline_def grab_source_def build_def)
qed

subsection \<open>Claim C8: the target images\<close>

text \<open>
  Claim C8: the target image of a workspace name is a function of the name and the template
  only. When the runtime ranges over all the keys of the set, the map built by \<open>Resolve\<close>
  holds, for every requested name, the template with the occurrences of \<open>{{workspace}}\<close>
  replaced by the name, and nothing for any other name. For a template made of segments
  without an opening brace, each followed by the placeholder, every placeholder is
  replaced. The witness is the example of the specification: \<open>{a, b}\<close> against
  \<open>repo/{{workspace}}\<close>.
\<close>

theorem target_images:
  assumes "set (rangeKeys ext (NewString names)) = NewString names"
  shows "wtargetimages ext (NewString names) target w
           = (if w \<in> set names then Some (ReplaceAll target ''{{workspace}}'' w) else None)
       \<and> ((\<forall>seg \<in> set segs. CHR ''{'' \<notin> set seg) \<and> CHR ''{'' \<notin> set rest \<longrightarrow>
            ReplaceAll (concat (map (\<lambda>seg. seg @ ''{{workspace}}'') segs) @ rest) ''{{workspace}}'' w
              = concat (map (\<lambda>seg. seg @ w) segs) @ rest)"
proof -
  have "ReplaceAll (concat (map (\<lambda>seg. seg @ ''{{workspace}}'') segs) @ rest) ''{{workspace}}'' w
          = concat (map (\<lambda>seg. seg @ w) segs) @ rest"
    if "\<forall>seg \<in> set segs. CHR ''{'' \<notin> set seg" and "CHR ''{'' \<notin> set rest"
    using that by (intro ReplaceAll_segments) simp_all
  with wtargetimages_apply [OF assms, of target w] show ?thesis
    by (simp add: placeholder_def NewString_def)
qed

theorem target_images_witness:
  "wtargetimages ex_ext (NewString [''a'', ''b'']) ''repo/{{workspace}}''
     = [''a'' \<mapsto> ''repo/a'', ''b'' \<mapsto> ''repo/b'']"
proof (rule ext)
  fix w
  have h: "set (rangeKeys ex_ext (NewString [''a'', ''b''])) = NewString [''a'', ''b'']"
    by (simp add: ex_ext_def NewString_def)
  from target_images [OF h, of "''repo/{{workspace}}''" w "[]" "[]"]
  show "wtargetimages ex_ext (NewString [''a'', ''b'']) ''repo/{{workspace}}'' w
          = [''a'' \<mapsto> ''repo/a'', ''b'' \<mapsto> ''repo/b''] w"
    by auto
qed

subsection \<open>Claim C9: the wrapper parameter\<close>

text \<open>
  The one place where the wrapper matters to the outcome: on the nil parameter map, a
  configured default wrapper makes \<open>populateParamsWithDefaults\<close> assign into the nil map,
  and the run panics, where the run without a default wrapper goes on to look the pipeline
  up. No document comes out of either run.
\<close>

lemma nil_params_default_wrapper:
  "Resolve ex_ext [''default-wrapper'' \<mapsto> ''base''] (ex_cluster [grab_source, build]) None
     = Inl NilMapAssignment
   \<and> Resolve ex_ext Map.empty (ex_cluster [grab_source, build]) None = Inl (PipelineGetFailed [])"
  by (simp add: Resolve_unfold ex_cluster_def entries_def mapIndex_def param_names)

text \<open>
  Claim C9: two requests that agree on every parameter but \<open>wrapper\<close>, resolved under any
  two configurations, give the same document whenever both give a document: the wrapper is
  never read after it is filled in. Unless one of the two runs assigns the default wrapper
  into a nil parameter map, the two outcomes are equal altogether, failures included.
\<close>

theorem wrapper_value_not_read:
  assumes "\<forall>k. k \<noteq> WrapperParam \<longrightarrow> entries p1 k = entries p2 k"
  shows "(Resolve ext c1 cl p1 = Inr r1 \<and> Resolve ext c2 cl p2 = Inr r2 \<longrightarrow> r1 = r2)
       \<and> ((p1 = None \<longrightarrow> c1 ''default-wrapper'' = None) \<and>
          (p2 = None \<longrightarrow> c2 ''default-wrapper'' = None) \<longrightarrow>
            Resolve ext c1 cl p1 = Resolve ext c2 cl p2)"
proof -
  have eqs: "mapIndex (entries p1) PipelineRefParam = mapIndex (entries p2) PipelineRefParam"
       "mapIndex (entries p1) WorkspacesParam = mapIndex (entries p2) WorkspacesParam"
       "mapIndex (entries p1) TargetParam = mapIndex (entries p2) TargetParam"
    using assms by (simp_all add: mapIndex_def param_names)
  have same: "Resolve ext c1 cl p1 = Resolve ext c2 cl p2"
    if "p1 = None \<longrightarrow> c1 ''default-wrapper'' = None"
      and "p2 = None \<longrightarrow> c2 ''default-wrapper'' = None"
  proof -
    from that have n: "\<not> (p1 = None \<and> c1 ''default-wrapper'' \<noteq> None)"
      "\<not> (p2 = None \<and> c2 ''default-wrapper'' \<noteq> None)"
      by auto
    show ?thesis
      unfolding Resolve_unfold eqs if_not_P [OF n(1)] if_not_P [OF n(2)] by (rule refl)
  qed
  have "r1 = r2" if "Resolve ext c1 cl p1 = Inr r1" and "Resolve ext c2 cl p2 = Inr r2"
  proof -
    from that(1) have "p1 = None \<longrightarrow> c1 ''default-wrapper'' = None"
      by (auto simp: Resolve_unfold split: if_splits)
    moreover from that(2) have "p2 = None \<longrightarrow> c2 ''default-wrapper'' = None"
      by (auto simp: Resolve_unfold split: if_splits)
    ultimately have "Resolve ext c1 cl p1 = Resolve ext c2 cl p2" by (rule same)
    with that show ?thesis by simp
  qed
  with same show ?thesis by blast
qed

theorem wrapper_value_not_read_witness:
  "(\<exists>r. Resolve ex_ext Map.empty (ex_cluster [grab_source, build])
            (Some (ex_entries(WrapperParam \<mapsto> ''base-a''))) = Inr r
       \<and> Resolve ex_ext [''default-wrapper'' \<mapsto> ''base-b''] (ex_cluster [grab_source, build])
            ex_params = Inr r)
   \<and> Resolve ex_ext [''default-wrapper'' \<mapsto> ''base-b''] (ex_cluster [grab_source, build])
        (Some Map.empty)
     = Resolve ex_ext Map.empty (ex_cluster [grab_source, build]) None"
proof -
  let ?cl = "ex_cluster [grab_source, build]"
  have a: "\<forall>k. k \<noteq> WrapperParam \<longrightarrow>
             entries (Some (ex_entries(WrapperParam \<mapsto> ''base-a''))) k = entries ex_params k"
    by (simp add: entries_def ex_params_def)
  have "\<exists>r. Resolve ex_ext Map.empty ?cl (Some (ex_entries(WrapperParam \<mapsto> ''base-a''))) = Inr r"
    by (simp add: sample_eval)
  then obtain r1
    where r1: "Resolve ex_ext Map.empty ?cl (Some (ex_entries(WrapperParam \<mapsto> ''base-a''))) = Inr r1" ..
  have "\<exists>r. Resolve ex_ext [''default-wrapper'' \<mapsto> ''base-b''] ?cl ex_params = Inr r"
    by (simp add: sample_eval)
  then obtain r2
    where r2: "Resolve ex_ext [''default-wrapper'' \<mapsto> ''base-b''] ?cl ex_params = Inr r2" ..
  from wrapper_value_not_read [OF a, of ex_ext Map.empty ?cl r1 "[''default-wrapper'' \<mapsto> ''base-b'']" r2]
    r1 r2
  have docs: "\<exists>r. Resolve ex_ext Map.empty ?cl (Some (ex_entries(WrapperParam \<mapsto> ''base-a''))) = Inr r
       \<and> Resolve ex_ext [''default-wrapper'' \<mapsto> ''base-b''] ?cl ex_params = Inr r"
    by simp
  have b: "\<forall>k. k \<noteq> WrapperParam \<longrightarrow> entries (Some Map.empty) k = entries None k"
    by (simp add: entries_def)
  from wrapper_value_not_read [OF b, of ex_ext "[''default-wrapper'' \<mapsto> ''base-b'']" ?cl _ Map.empty]
  have "Resolve ex_ext [''default-wrapper'' \<mapsto> ''base-b''] ?cl (Some Map.empty)
      = Resolve ex_ext Map.empty ?cl None"
    by simp
  with docs show ?thesis by blast
qed

subsection \<open>Claim C10: determinism\<close>

text \<open>
  Claim C10: the outcome of \<open>Resolve\<close>, generated scripts included, is the same on every
  run with the same parameters, configuration and cluster contents. What can differ between
  two runs is the order in which the runtime ranges over the keys of the workspace set:
  for any two orders that range over all the keys, the outcomes are equal.
\<close>

theorem Resolve_independent_of_range_order:
  assumes "set (rangeKeys ext1 (requested params)) = requested params"
      and "set (rangeKeys ext2 (requested params)) = requested params"
      and "GetMountPath ext1 = GetMountPath ext2"
  shows "Resolve ext1 conf cl params = Resolve ext2 conf cl params
       \<and> importScript ext1 (requested params) (targets ext1 params) s uses b
           = importScript ext2 (requested params) (targets ext2 params) s uses b
       \<and> exportScript ext1 (requested params) (targets ext1 params) s i uses b
           = exportScript ext2 (requested params) (targets ext2 params) s i uses b"
proof -
  have t: "targets ext1 params = targets ext2 params"
    unfolding targets_def
    by (rule ext) (simp add: wtargetimages_apply [OF assms(1)] wtargetimages_apply [OF assms(2)])
  then have wt: "wtargetimages ext1 (NewString (Split_comma (mapIndex (entries params) WorkspacesParam)))
                   (mapIndex (entries params) TargetParam)
      = wtargetimages ext2 (NewString (Split_comma (mapIndex (entries params) WorkspacesParam)))
          (mapIndex (entries params) TargetParam)"
    by (simp add: targets_def requested_def)
  have "Resolve ext1 conf cl params = Resolve ext2 conf cl params"
    unfolding Resolve_unfold wt wrapTasks_ext [OF assms(3)] by (rule refl)
  then show ?thesis
    by (simp add: t importScript_ext [OF assms(3)] exportScript_ext [OF assms(3)])
qed

theorem Resolve_independent_of_range_order_witness:
  "rangeKeys ex_ext (requested ex_params2) = [''cache'', ''sources'']
   \<and> rangeKeys ex_ext_rev (requested ex_params2) = [''sources'', ''cache'']
   \<and> Resolve ex_ext Map.empty (ex_cluster [grab_source, build]) ex_params2
       = Resolve ex_ext_rev Map.empty (ex_cluster [grab_source, build]) ex_params2
   \<and> (\<exists>r. Resolve ex_ext Map.empty (ex_cluster [grab_source, build]) ex_params2 = Inr r)"
proof -
  have req: "requested ex_params2 = {''sources'', ''cache''}"
    by (auto simp: requested_def ex_params2_def ex_entries_def entries_def mapIndex_def
        NewString_def param_names)
  have srt: "sorted_list_of_set {''sources'', ''cache''} = [''cache'', ''sources'']"
    by code_simp
  have h1: "set (rangeKeys ex_ext (requested ex_params2)) = requested ex_params2"
    by (auto simp: req ex_ext_def)
  have h2: "set (rangeKeys ex_ext_rev (requested ex_params2)) = requested ex_params2"
    by (auto simp: req ex_ext_rev_def ex_ext_def)
  have g: "GetMountPath ex_ext = GetMountPath ex_ext_rev"
    by (simp add: ex_ext_rev_def)
  have r: "\<exists>r. Resolve ex_ext Map.empty (ex_cluster [grab_source, build]) ex_params2 = Inr r"
    by (simp add: sample_eval ex_params2_def)
  from Resolve_independent_of_range_order [OF h1 h2 g, of Map.empty "ex_cluster [grab_source, build]"]
    r srt show ?thesis
    by (simp add: req ex_ext_rev_def ex_ext_def)
qed

end
